theory Spec2Isabelle
  imports Main "HOL-Library.Word" "HOL-Library.AList"
begin

unbundle bit_operations_syntax

section \<open>contentful-to-algolia: the reconciliation core\<close>

text \<open>
  A shallow embedding of \<^verbatim>\<open>src/lib/Sync.js\<close> (the classes \<^verbatim>\<open>Sync\<close> and
  \<^verbatim>\<open>Algolia\<close>) and of \<^verbatim>\<open>src/lib/Contentful.js\<close> (the class \<^verbatim>\<open>Contentful\<close>).

  The two files use JavaScript objects differently, and the embedding follows them.
  \<^item> \<^verbatim>\<open>Sync.js\<close> only reads the nested values of records and hits (\<^verbatim>\<open>_.isEqual\<close>,
    \<^verbatim>\<open>_.omitBy\<close>) and writes a single top-level property of an incoming record
    (\<^verbatim>\<open>objectID\<close>). Records are therefore objects in a store indexed by address, so
    that two positions of \<^verbatim>\<open>data\<close> may name one object, and the values of their
    properties are immutable JSON trees.
  \<^item> \<^verbatim>\<open>Contentful.js\<close> mutates nested objects in place, deletes properties of objects
    that are shared, and tests object identity (\<^verbatim>\<open>_.indexOf\<close> on the visited stack). There
    the embedding is a heap of objects with references (second part of the theory).

  Exceptions are values: a run yields \<open>Inl e\<close> where the JavaScript throws or the promise
  rejects. Numbers are integers: the code never computes with the numbers of a record, it
  only tests them for truthiness and equality.
\<close>

datatype error = TypeError | NetworkError

subsection \<open>JSON values of records and hits\<close>

datatype jval =
    JUndefined
  | JNull
  | JBool bool
  | JNum int
  | JStr string
  | JArr "jval list"
  | JObj "(string \<times> jval) list"

text \<open>An object is the list of its own properties in insertion order, keys distinct.\<close>

type_synonym jobject = "(string \<times> jval) list"

definition jget :: "jobject \<Rightarrow> string \<Rightarrow> jval" where
  "jget obj k = (case map_of obj k of None \<Rightarrow> JUndefined | Some v \<Rightarrow> v)"

fun jtruthy :: "jval \<Rightarrow> bool" where
  "jtruthy JUndefined = False"
| "jtruthy JNull = False"
| "jtruthy (JBool b) = b"
| "jtruthy (JNum n) = (n \<noteq> 0)"
| "jtruthy (JStr s) = (s \<noteq> [])"
| "jtruthy (JArr xs) = True"
| "jtruthy (JObj ps) = True"

subsection \<open>SHA-256 (\<^verbatim>\<open>crypto.createHash('sha256')\<close>)\<close>

text \<open>
  The digest of Node's \<^verbatim>\<open>crypto\<close> module, as FIPS 180-4 defines it, over bytes. A
  string is the list of the bytes of its UTF-8 encoding, which is what \<^verbatim>\<open>hash.update\<close>
  feeds to the digest.
\<close>

type_synonym w32 = "32 word"
type_synonym byte = "8 word"

definition K256 :: "w32 list" where
  "K256 = concat [
    [0x428a2f98, 0x71374491, 0xb5c0fbcf, 0xe9b5dba5, 0x3956c25b, 0x59f111f1, 0x923f82a4, 0xab1c5ed5],
    [0xd807aa98, 0x12835b01, 0x243185be, 0x550c7dc3, 0x72be5d74, 0x80deb1fe, 0x9bdc06a7, 0xc19bf174],
    [0xe49b69c1, 0xefbe4786, 0x0fc19dc6, 0x240ca1cc, 0x2de92c6f, 0x4a7484aa, 0x5cb0a9dc, 0x76f988da],
    [0x983e5152, 0xa831c66d, 0xb00327c8, 0xbf597fc7, 0xc6e00bf3, 0xd5a79147, 0x06ca6351, 0x14292967],
    [0x27b70a85, 0x2e1b2138, 0x4d2c6dfc, 0x53380d13, 0x650a7354, 0x766a0abb, 0x81c2c92e, 0x92722c85],
    [0xa2bfe8a1, 0xa81a664b, 0xc24b8b70, 0xc76c51a3, 0xd192e819, 0xd6990624, 0xf40e3585, 0x106aa070],
    [0x19a4c116, 0x1e376c08, 0x2748774c, 0x34b0bcb5, 0x391c0cb3, 0x4ed8aa4a, 0x5b9cca4f, 0x682e6ff3],
    [0x748f82ee, 0x78a5636f, 0x84c87814, 0x8cc70208, 0x90befffa, 0xa4506ceb, 0xbef9a3f7, 0xc67178f2]]"

definition H256 :: "w32 list" where
  "H256 = [0x6a09e667, 0xbb67ae85, 0x3c6ef372, 0xa54ff53a,
           0x510e527f, 0x9b05688c, 0x1f83d9ab, 0x5be0cd19]"

definition Ch :: "w32 \<Rightarrow> w32 \<Rightarrow> w32 \<Rightarrow> w32" where
  "Ch x y z = (x AND y) XOR (NOT x AND z)"

definition Maj :: "w32 \<Rightarrow> w32 \<Rightarrow> w32 \<Rightarrow> w32" where
  "Maj x y z = (x AND y) XOR (x AND z) XOR (y AND z)"

definition bsig0 :: "w32 \<Rightarrow> w32" where
  "bsig0 x = word_rotr 2 x XOR word_rotr 13 x XOR word_rotr 22 x"

definition bsig1 :: "w32 \<Rightarrow> w32" where
  "bsig1 x = word_rotr 6 x XOR word_rotr 11 x XOR word_rotr 25 x"

definition ssig0 :: "w32 \<Rightarrow> w32" where
  "ssig0 x = word_rotr 7 x XOR word_rotr 18 x XOR drop_bit 3 x"

definition ssig1 :: "w32 \<Rightarrow> w32" where
  "ssig1 x = word_rotr 17 x XOR word_rotr 19 x XOR drop_bit 10 x"

text \<open>Padding: the byte 0x80, zeros up to 56 modulo 64, the bit length on 64 bits.\<close>

definition sha_pad :: "byte list \<Rightarrow> byte list" where
  "sha_pad m = m @ [0x80] @ replicate ((119 - length m mod 64) mod 64) 0
     @ map (\<lambda>i. ucast (drop_bit (8 * (7 - i)) (of_nat (8 * length m) :: 64 word))) [0..<8]"

fun be_words :: "byte list \<Rightarrow> w32 list" where
  "be_words (a # b # c # d # bs) =
     (push_bit 24 (ucast a) OR push_bit 16 (ucast b) OR push_bit 8 (ucast c) OR ucast d)
       # be_words bs"
| "be_words _ = []"

fun schedule :: "nat \<Rightarrow> w32 list \<Rightarrow> w32 list" where
  "schedule 0 ws = ws"
| "schedule (Suc n) ws =
     (let t = length ws in
      schedule n
        (ws @ [ssig1 (ws ! (t - 2)) + ws ! (t - 7) + ssig0 (ws ! (t - 15)) + ws ! (t - 16)]))"

fun round256 :: "w32 list \<Rightarrow> w32 \<times> w32 \<Rightarrow> w32 list" where
  "round256 [a, b, c, d, e, f, g, h] (k, w) =
     (let t1 = h + bsig1 e + Ch e f g + k + w; t2 = bsig0 a + Maj a b c
      in [t1 + t2, a, b, c, d + t1, e, f, g])"
| "round256 s _ = s"

definition compress :: "w32 list \<Rightarrow> w32 list \<Rightarrow> w32 list" where
  "compress hs block = map2 (+) hs (foldl round256 hs (zip K256 (schedule 48 block)))"

fun blocks :: "nat \<Rightarrow> w32 list \<Rightarrow> w32 list \<Rightarrow> w32 list" where
  "blocks 0 hs ws = hs"
| "blocks (Suc n) hs ws = blocks n (compress hs (take 16 ws)) (drop 16 ws)"

definition sha256 :: "byte list \<Rightarrow> w32 list" where
  "sha256 m = (let ws = be_words (sha_pad m) in blocks (length ws div 16) H256 ws)"

definition hex_digit :: "nat \<Rightarrow> char" where
  "hex_digit n = ''0123456789abcdef'' ! (n mod 16)"

definition hex32 :: "w32 \<Rightarrow> string" where
  "hex32 w = map (\<lambda>i. hex_digit (unat (drop_bit (4 * (7 - i)) w AND 15))) [0..<8]"

text \<open>
  The digest context of \<^verbatim>\<open>crypto\<close>: \<^verbatim>\<open>createHash\<close> opens it empty, each
  \<^verbatim>\<open>update\<close> appends its data to what was fed before, \<^verbatim>\<open>digest('hex')\<close> hashes
  the whole and prints it in lower-case hexadecimal.
\<close>

type_synonym hash_context = "byte list"

definition createHash :: "hash_context" where
  "createHash = []"

definition hash_update :: "hash_context \<Rightarrow> string \<Rightarrow> hash_context" where
  "hash_update ctx s = ctx @ map of_char s"

definition digest_hex :: "hash_context \<Rightarrow> string" where
  "digest_hex ctx = concat (map hex32 (sha256 ctx))"

subsection \<open>Sync.js, class Algolia: the fingerprint\<close>

text \<open>
  \<^verbatim>\<open>getEntryKey\<close> (Sync.js 131-136), the closure of \<^verbatim>\<open>getElementsPromise\<close>:
  \<^verbatim>\<open>
  let hash = crypto.createHash('sha256');
  hash.update(entry.id);
  hash.update(entry.locale);
  return hash.digest('hex');
  \<close>
  \<^verbatim>\<open>hash.update\<close> throws a TypeError on a value that is not a string (or a buffer,
  which JSON data never holds).
\<close>

definition getEntryKey :: "jobject \<Rightarrow> error + string" where
  "getEntryKey entry =
     (case jget entry ''id'' of
        JStr i \<Rightarrow>
          (case jget entry ''locale'' of
             JStr l \<Rightarrow> Inr (digest_hex (hash_update (hash_update createHash i) l))
           | _ \<Rightarrow> Inl TypeError)
      | _ \<Rightarrow> Inl TypeError)"

subsection \<open>Sync.js, class Algolia: the diff\<close>

text \<open>
  \<^verbatim>\<open>_.isEqual\<close> on JSON values: arrays are equal when they have the same length and
  equal elements in order, objects when they have the same number of own keys, every key
  of the first is a key of the second, and the values under it are equal; everything else
  is compared with \<^verbatim>\<open>===\<close>.
\<close>

fun isEqual :: "jval \<Rightarrow> jval \<Rightarrow> bool"
  and equalArrays :: "jval list \<Rightarrow> jval list \<Rightarrow> bool"
  and equalObjects :: "(string \<times> jval) list \<Rightarrow> (string \<times> jval) list \<Rightarrow> bool" where
  "isEqual (JArr xs) (JArr ys) = equalArrays xs ys"
| "isEqual (JObj ps) (JObj qs) = (length ps = length qs \<and> equalObjects ps qs)"
| "isEqual a b = (a = b)"
| "equalArrays [] [] = True"
| "equalArrays (x # xs) (y # ys) = (isEqual x y \<and> equalArrays xs ys)"
| "equalArrays _ _ = False"
| "equalObjects [] qs = True"
| "equalObjects ((k, v) # ps) qs =
     (case map_of qs k of None \<Rightarrow> False | Some w \<Rightarrow> isEqual v w \<and> equalObjects ps qs)"

text \<open>
  The incoming records are objects of the JavaScript heap: \<open>recs a\<close> is the object at
  address \<open>a\<close>, and \<^verbatim>\<open>data\<close> is a list of addresses. The hits of the snapshot are
  never written to, so they are values.
\<close>

type_synonym records = "nat \<Rightarrow> jobject"

record sync_results =
  created :: "nat list"
  updated :: "nat list"
  deleted :: "jval list"

text \<open>
  \<^verbatim>\<open>_.keyBy(data, getEntryKey)\<close>: an object from fingerprint to record, the last record
  of a fingerprint winning.
\<close>

fun keyBy :: "records \<Rightarrow> nat list \<Rightarrow> (string \<rightharpoonup> nat) \<Rightarrow> error + (string \<rightharpoonup> nat)" where
  "keyBy recs [] idx = Inr idx"
| "keyBy recs (a # as) idx =
     (case getEntryKey (recs a) of
        Inl e \<Rightarrow> Inl e
      | Inr key \<Rightarrow> keyBy recs as (idx(key \<mapsto> a)))"

text \<open>
  The content-type filter is \<^verbatim>\<open>undefined\<close> (\<open>None\<close>) or a string;
  \<^verbatim>\<open>if (contentType)\<close> tests it for truthiness, and
  \<^verbatim>\<open>_.filter(hits, {contentType: contentType})\<close> keeps the hits whose
  \<^verbatim>\<open>contentType\<close> is that string.
\<close>

definition supplied :: "string option \<Rightarrow> bool" where
  "supplied contentType = (case contentType of None \<Rightarrow> False | Some ct \<Rightarrow> ct \<noteq> [])"

definition filter_hits :: "string option \<Rightarrow> jobject list \<Rightarrow> jobject list" where
  "filter_hits contentType hits =
     (if supplied contentType
      then filter (\<lambda>hit. JStr (the contentType) = jget hit ''contentType'') hits
      else hits)"

definition omitUndefined :: "jobject \<Rightarrow> jobject" where
  "omitUndefined obj = filter (\<lambda>p. snd p \<noteq> JUndefined) obj"

text \<open>
  The loop \<^verbatim>\<open>_.each(hits, ...)\<close> (Sync.js 167-178) over the state it writes: the
  records, \<^verbatim>\<open>results.updated\<close> and \<^verbatim>\<open>results.deleted\<close>.
  \<^verbatim>\<open>
  var key = getEntryKey(hit);
  if (entriesIndex[key]) {
    entriesIndex[key].objectID = hit.objectID;
    var compactEntry = _.omitBy(entriesIndex[key], (prop) => { return _.isUndefined(prop); });
    if (!_.isEqual(compactEntry, hit)) { results.updated.push(entriesIndex[key]); }
  } else if (contentType) { results.deleted.push(hit.objectID); }
  \<close>
\<close>

fun each_hit ::
  "(string \<rightharpoonup> nat) \<Rightarrow> bool \<Rightarrow> jobject list \<Rightarrow> records \<times> nat list \<times> jval list
     \<Rightarrow> error + (records \<times> nat list \<times> jval list)" where
  "each_hit entriesIndex flt [] acc = Inr acc"
| "each_hit entriesIndex flt (hit # hits) (recs, upd, del) =
     (case getEntryKey hit of
        Inl e \<Rightarrow> Inl e
      | Inr key \<Rightarrow>
          (case entriesIndex key of
             Some a \<Rightarrow>
               (let recs' = recs(a := AList.update ''objectID'' (jget hit ''objectID'') (recs a));
                    compactEntry = omitUndefined (recs' a)
                in each_hit entriesIndex flt hits
                     (recs', if \<not> isEqual (JObj compactEntry) (JObj hit) then upd @ [a] else upd, del))
           | None \<Rightarrow>
               each_hit entriesIndex flt hits
                 (recs, upd, if flt then del @ [jget hit ''objectID''] else del)))"

text \<open>
  The function passed to \<^verbatim>\<open>this.cachedResults.then\<close> (Sync.js 157-183): the diff of
  \<^verbatim>\<open>data\<close> against the hits of the snapshot. It returns the records as it leaves
  them, and the three result lists.
\<close>

definition diff_hits ::
  "records \<Rightarrow> nat list \<Rightarrow> (string \<rightharpoonup> nat) \<Rightarrow> string option \<Rightarrow> jobject list
     \<Rightarrow> error + (records \<times> sync_results)" where
  "diff_hits recs data entriesIndex contentType hits =
     (case each_hit entriesIndex (supplied contentType) (filter_hits contentType hits) (recs, [], []) of
        Inl e \<Rightarrow> Inl e
      | Inr (recs', upd, del) \<Rightarrow>
          Inr (recs',
               \<lparr>created = filter (\<lambda>a. \<not> jtruthy (jget (recs' a) ''objectID'')) data,
                updated = upd,
                deleted = del\<rparr>))"

text \<open>
  What the promise of \<^verbatim>\<open>getElementsPromise(data, contentType)\<close> resolves to when the
  snapshot holds \<open>hits\<close>: the index of the records by fingerprint, then the diff.
\<close>

definition getElements ::
  "records \<Rightarrow> nat list \<Rightarrow> string option \<Rightarrow> jobject list \<Rightarrow> error + (records \<times> sync_results)" where
  "getElements recs data contentType hits =
     (case keyBy recs data Map.empty of
        Inl e \<Rightarrow> Inl e
      | Inr entriesIndex \<Rightarrow> diff_hits recs data entriesIndex contentType hits)"

subsection \<open>Sync.js, class Algolia: the index client and the commit\<close>

text \<open>
  The destination index is an external collaborator. The requests the program issues are
  recorded in a log, in the order of the calls; what the index answers is a parameter
  (\<open>server\<close>), a function of the requests issued so far. A transport error is \<open>None\<close>.
\<close>

datatype netop =
    BrowseAll
  | AddObjects "jobject list"
  | SaveObjects "jobject list"
  | DeleteObjects "jval list"

record server =
  browse_reply :: "netop list \<Rightarrow> jobject list list option"
  bulk_reply :: "netop list \<Rightarrow> jval list option"

datatype console_msg = Indexed string | Failed error

record world =
  heap_recs :: records
  netlog :: "netop list"
  console :: "console_msg list"

text \<open>
  How a call that returns a promise ends: it throws before it returns (\<open>Threw\<close>), or the
  promise it returns is rejected or resolved. A promise is identified with the value it
  settles to; the continuations the code chains with \<^verbatim>\<open>then\<close> run in the order of
  the chain, one pipeline after the other. The requests of distinct pipelines touch
  disjoint records, so the interleaving of pipelines changes neither the requests each one
  issues nor their number.
\<close>

datatype 'a settled = Threw error | Rejected error | Resolved 'a

record algolia_config =
  applicationId :: string
  apiKey :: string
  indexPrefix :: "string option"

record algolia =
  indexName :: string
  cachedResults :: "(error + jobject list) option"

text \<open>The constructor (Sync.js 101-108): \<^verbatim>\<open>this.cachedResults = null\<close>.\<close>

definition new_Algolia :: "algolia_config \<Rightarrow> string \<Rightarrow> algolia" where
  "new_Algolia config index =
     \<lparr>indexName = (case indexPrefix config of None \<Rightarrow> [] | Some p \<Rightarrow> p) @ index,
      cachedResults = None\<rparr>"

text \<open>
  \<^verbatim>\<open>this.index.browseAll()\<close> with its three listeners (Sync.js 139-153): the pages of
  hits are concatenated, \<^verbatim>\<open>end\<close> resolves the promise, \<^verbatim>\<open>error\<close> rejects it.
  The executor of \<^verbatim>\<open>new Promise\<close> runs at once, so the request is issued during the
  call of \<^verbatim>\<open>getElementsPromise\<close>.
\<close>

definition browseAll :: "server \<Rightarrow> world \<Rightarrow> world \<times> (error + jobject list)" where
  "browseAll srv w =
     (let log = netlog w @ [BrowseAll]
      in (w\<lparr>netlog := log\<rparr>,
          case browse_reply srv log of
            None \<Rightarrow> Inl NetworkError
          | Some pages \<Rightarrow> Inr (foldl (\<lambda>results hits. results @ hits) [] pages)))"

text \<open>
  \<^verbatim>\<open>getElementsPromise\<close> (Sync.js 129-184): \<^verbatim>\<open>_.keyBy\<close> runs first and throws
  out of the call; the snapshot is fetched when \<^verbatim>\<open>this.cachedResults\<close> is null and
  kept in the instance; the diff runs on the hits the promise resolves to.
\<close>

definition getElementsPromise ::
  "server \<Rightarrow> algolia \<Rightarrow> world \<Rightarrow> nat list \<Rightarrow> string option
     \<Rightarrow> algolia \<times> world \<times> sync_results settled" where
  "getElementsPromise srv alg w data contentType =
     (case keyBy (heap_recs w) data Map.empty of
        Inl e \<Rightarrow> (alg, w, Threw e)
      | Inr entriesIndex \<Rightarrow>
          (let (alg1, w1, promise) =
                 (case cachedResults alg of
                    None \<Rightarrow>
                      (let (w', p) = browseAll srv w in (alg\<lparr>cachedResults := Some p\<rparr>, w', p))
                  | Some p \<Rightarrow> (alg, w, p))
           in case promise of
                Inl e \<Rightarrow> (alg1, w1, Rejected e)
              | Inr hits \<Rightarrow>
                  (case diff_hits (heap_recs w1) data entriesIndex contentType hits of
                     Inl e \<Rightarrow> (alg1, w1, Rejected e)
                   | Inr (recs', results) \<Rightarrow> (alg1, w1\<lparr>heap_recs := recs'\<rparr>, Resolved results))))"

text \<open>
  \<^verbatim>\<open>addObjects\<close>, \<^verbatim>\<open>updateObjects\<close>, \<^verbatim>\<open>deleteObjects\<close> (Sync.js 296-358):
  \<^verbatim>\<open>if (objects.length === 0) { return { objectIDs: [] }; }\<close>, otherwise the request.
  The value is the \<^verbatim>\<open>objectIDs\<close> of the content the index answers.
\<close>

definition bulk :: "server \<Rightarrow> world \<Rightarrow> netop \<Rightarrow> world \<times> (error + jval list)" where
  "bulk srv w op =
     (let log = netlog w @ [op]
      in (w\<lparr>netlog := log\<rparr>,
          case bulk_reply srv log of None \<Rightarrow> Inl NetworkError | Some ids \<Rightarrow> Inr ids))"

definition addObjects :: "server \<Rightarrow> world \<Rightarrow> jobject list \<Rightarrow> world \<times> (error + jval list)" where
  "addObjects srv w objects =
     (if length objects = 0 then (w, Inr []) else bulk srv w (AddObjects objects))"

definition updateObjects :: "server \<Rightarrow> world \<Rightarrow> jobject list \<Rightarrow> world \<times> (error + jval list)" where
  "updateObjects srv w objects =
     (if length objects = 0 then (w, Inr []) else bulk srv w (SaveObjects objects))"

definition deleteObjects :: "server \<Rightarrow> world \<Rightarrow> jval list \<Rightarrow> world \<times> (error + jval list)" where
  "deleteObjects srv w objects =
     (if length objects = 0 then (w, Inr []) else bulk srv w (DeleteObjects objects))"

text \<open>\<^verbatim>\<open>getMergedObjects\<close> (Sync.js 209-217).\<close>

definition getMergedObjects :: "jval list list \<Rightarrow> jval list" where
  "getMergedObjects data = foldl (\<lambda>objects element. objects @ element) [] data"

text \<open>
  \<^verbatim>\<open>indexObjects\<close> (Sync.js 194-202), the commit: the three calls are made in the
  order of the array literal, \<^verbatim>\<open>Promise.all\<close> rejects when one of them does. The
  records are sent as they are when the call is made.
\<close>

definition indexObjects ::
  "server \<Rightarrow> world \<Rightarrow> nat list \<Rightarrow> nat list \<Rightarrow> jval list \<Rightarrow> world \<times> (error + jval list)" where
  "indexObjects srv w newObjects existingObjects deletedObjects =
     (let (w1, r1) = addObjects srv w (map (heap_recs w) newObjects);
          (w2, r2) = updateObjects srv w1 (map (heap_recs w1) existingObjects);
          (w3, r3) = deleteObjects srv w2 deletedObjects
      in (w3,
          case r1 of
            Inl e \<Rightarrow> Inl e
          | Inr a \<Rightarrow>
              (case r2 of
                 Inl e \<Rightarrow> Inl e
               | Inr b \<Rightarrow>
                   (case r3 of Inl e \<Rightarrow> Inl e | Inr c \<Rightarrow> Inr (getMergedObjects [a, b, c])))))"

text \<open>
  \<^verbatim>\<open>indexData\<close> (Sync.js 115-121): the diff, then the commit; \<^verbatim>\<open>.catch(console.error)\<close>
  turns a rejection into a promise resolved with \<^verbatim>\<open>undefined\<close> (\<open>None\<close>).
\<close>

definition indexData ::
  "server \<Rightarrow> algolia \<Rightarrow> world \<Rightarrow> nat list \<Rightarrow> string option
     \<Rightarrow> algolia \<times> world \<times> jval list option settled" where
  "indexData srv alg w data contentType =
     (case getElementsPromise srv alg w data contentType of
        (alg', w', Threw e) \<Rightarrow> (alg', w', Threw e)
      | (alg', w', Rejected e) \<Rightarrow> (alg', w'\<lparr>console := console w' @ [Failed e]\<rparr>, Resolved None)
      | (alg', w', Resolved entries) \<Rightarrow>
          (case indexObjects srv w' (created entries) (updated entries) (deleted entries) of
             (w'', Inl e) \<Rightarrow> (alg', w''\<lparr>console := console w'' @ [Failed e]\<rparr>, Resolved None)
           | (w'', Inr ids) \<Rightarrow> (alg', w'', Resolved (Some ids))))"

subsection \<open>Sync.js, class Sync: the orchestrator\<close>

text \<open>
  \<^verbatim>\<open>singleCallback\<close> (Sync.js 26-40). \<^verbatim>\<open>content\<close> is an array here, as
  \<^verbatim>\<open>_.groupBy\<close> makes it. The observer \<^verbatim>\<open>this.callback\<close> is a parameter: a function
  that may rewrite the records it is shown. Each call builds an index client of its own:
  \<^verbatim>\<open>new Algolia(this.config.algolia, this.indexName).indexData(content)\<close>, with no
  content type.
\<close>

definition singleCallback ::
  "algolia_config \<Rightarrow> server \<Rightarrow> (records \<Rightarrow> nat list \<Rightarrow> records) option \<Rightarrow> string
     \<Rightarrow> world \<Rightarrow> string \<Rightarrow> nat list \<Rightarrow> world \<times> error option" where
  "singleCallback config srv callback index w type content =
     (let w1 = (case callback of
                  None \<Rightarrow> w
                | Some cb \<Rightarrow> w\<lparr>heap_recs := cb (heap_recs w) content\<rparr>)
      in case indexData srv (new_Algolia config index) w1 content None of
           (alg, w2, Threw e) \<Rightarrow> (w2, Some e)
         | (alg, w2, Rejected e) \<Rightarrow> (w2\<lparr>console := console w2 @ [Failed e]\<rparr>, None)
         | (alg, w2, Resolved ids) \<Rightarrow> (w2\<lparr>console := console w2 @ [Indexed type]\<rparr>, None))"

text \<open>
  \<^verbatim>\<open>sync\<close> (Sync.js 52-74), from the point where the promise of
  \<^verbatim>\<open>getEntries\<close> has resolved to \<open>content\<close>, the flattened records grouped by
  content type: \<^verbatim>\<open>_.each(content, (entries, type) => { this.singleCallback(type, entries); })\<close>.
  An exception thrown out of \<^verbatim>\<open>singleCallback\<close> ends the loop and is logged by the
  \<^verbatim>\<open>.catch(console.error)\<close> of the chain.
\<close>

fun each_content ::
  "algolia_config \<Rightarrow> server \<Rightarrow> (records \<Rightarrow> nat list \<Rightarrow> records) option \<Rightarrow> string
     \<Rightarrow> (string \<times> nat list) list \<Rightarrow> world \<Rightarrow> world \<times> error option" where
  "each_content config srv callback index [] w = (w, None)"
| "each_content config srv callback index ((type, entries) # rest) w =
     (case singleCallback config srv callback index w type entries of
        (w', Some e) \<Rightarrow> (w', Some e)
      | (w', None) \<Rightarrow> each_content config srv callback index rest w')"

definition sync ::
  "algolia_config \<Rightarrow> server \<Rightarrow> (records \<Rightarrow> nat list \<Rightarrow> records) option \<Rightarrow> string
     \<Rightarrow> (string \<times> nat list) list \<Rightarrow> world \<Rightarrow> world" where
  "sync config srv callback index content w =
     (case each_content config srv callback index content w of
        (w', Some e) \<Rightarrow> w'\<lparr>console := console w' @ [Failed e]\<rparr>
      | (w', None) \<Rightarrow> w')"

text \<open>The number of snapshot fetches a run has issued.\<close>

definition fetches :: "world \<Rightarrow> nat" where
  "fetches w = length (filter (\<lambda>op. op = BrowseAll) (netlog w))"

section \<open>Contentful.js: the locale flattener\<close>

subsection \<open>The JavaScript heap\<close>

text \<open>
  A value is a primitive or a reference to an object of the heap. An object is a plain
  object, an array or the wrapper of a primitive (what \<^verbatim>\<open>Object(v)\<close> makes of a
  string, a number or a boolean); its own properties are kept in the order in which
  \<^verbatim>\<open>for ... in\<close> enumerates them: integer keys first, ascending, then the other
  keys in insertion order. A wrapper records its primitive, every other object has
  \<^verbatim>\<open>undefined\<close> there. A property key is a name or an array index. Two conventions
  of the embedding:
  \<^item> the names of properties and the locale codes are not names of members of
    \<^verbatim>\<open>Object.prototype\<close>, \<^verbatim>\<open>Array.prototype\<close> or \<^verbatim>\<open>String.prototype\<close>
    (\<^verbatim>\<open>constructor\<close>, \<^verbatim>\<open>length\<close>, ...), so that looking one up finds an own
    property or \<^verbatim>\<open>undefined\<close>;
  \<^item> arrays that one function creates and consumes itself (\<^verbatim>\<open>localizedEntries\<close>,
    \<^verbatim>\<open>cleanStack\<close>, a locale group) are lists; everything that can be shared lives in
    the heap.
  Addresses are positions in the heap, and allocation appends.
\<close>

datatype pkey = Name string | Idx nat

datatype val = Undefined | Null | Bool bool | Num int | Str string | Ref nat

record obj =
  is_array :: bool
  props :: "(pkey \<times> val) list"
  primitive :: val

type_synonym heap = "obj list"

text \<open>
  A run either exhausts its fuel (\<open>None\<close>: the recursion is deeper than the fuel given),
  throws (\<open>Some (Inl e)\<close>) or returns (\<open>Some (Inr x)\<close>). Functions that do not recurse
  return \<open>error + 'a\<close>.
\<close>

type_synonym 'a run = "(error + 'a) option"

definition bindE :: "error + 'a \<Rightarrow> ('a \<Rightarrow> error + 'b) \<Rightarrow> error + 'b" where
  "bindE m f = (case m of Inl e \<Rightarrow> Inl e | Inr x \<Rightarrow> f x)"

definition bindR :: "'a run \<Rightarrow> ('a \<Rightarrow> 'b run) \<Rightarrow> 'b run" where
  "bindR m f = (case m of None \<Rightarrow> None | Some (Inl e) \<Rightarrow> Some (Inl e) | Some (Inr x) \<Rightarrow> f x)"

definition returns :: "'a \<Rightarrow> 'a run" where
  "returns x = Some (Inr x)"

definition empty_object :: obj where
  "empty_object = \<lparr>is_array = False, props = [], primitive = Undefined\<rparr>"

definition empty_array :: obj where
  "empty_array = \<lparr>is_array = True, props = [], primitive = Undefined\<rparr>"

text \<open>A reference outside the heap reads as an empty object; a well-formed heap has none.\<close>

definition deref :: "heap \<Rightarrow> nat \<Rightarrow> obj" where
  "deref h a = (if a < length h then h ! a else empty_object)"

definition new_object :: "heap \<Rightarrow> obj \<Rightarrow> heap \<times> nat" where
  "new_object h ob = (h @ [ob], length h)"

definition alloc :: "heap \<Rightarrow> obj \<Rightarrow> heap \<times> val" where
  "alloc h ob = (h @ [ob], Ref (length h))"

fun truthy :: "val \<Rightarrow> bool" where
  "truthy Undefined = False"
| "truthy Null = False"
| "truthy (Bool b) = b"
| "truthy (Num n) = (n \<noteq> 0)"
| "truthy (Str s) = (s \<noteq> [])"
| "truthy (Ref a) = True"

text \<open>\<^verbatim>\<open>typeof v === 'object'\<close> holds of objects, arrays and \<^verbatim>\<open>null\<close>.\<close>

fun typeof_object :: "val \<Rightarrow> bool" where
  "typeof_object Null = True"
| "typeof_object (Ref a) = True"
| "typeof_object v = False"

fun instanceof_Object :: "val \<Rightarrow> bool" where
  "instanceof_Object (Ref a) = True"
| "instanceof_Object v = False"

text \<open>\<^verbatim>\<open>v.constructor === Array\<close>, for a truthy \<open>v\<close>.\<close>

fun constructor_is_Array :: "heap \<Rightarrow> val \<Rightarrow> bool" where
  "constructor_is_Array h (Ref a) = is_array (deref h a)"
| "constructor_is_Array h v = False"

definition own_prop :: "(pkey \<times> val) list \<Rightarrow> pkey \<Rightarrow> val" where
  "own_prop ps k = (case map_of ps k of None \<Rightarrow> Undefined | Some v \<Rightarrow> v)"

text \<open>
  \<^verbatim>\<open>v[k]\<close>: a TypeError on \<^verbatim>\<open>undefined\<close> and \<^verbatim>\<open>null\<close>, the character of a
  string at an index, \<^verbatim>\<open>undefined\<close> for a property that is not there.
\<close>

fun get_prop :: "heap \<Rightarrow> val \<Rightarrow> pkey \<Rightarrow> error + val" where
  "get_prop h Undefined k = Inl TypeError"
| "get_prop h Null k = Inl TypeError"
| "get_prop h (Ref a) k = Inr (own_prop (props (deref h a)) k)"
| "get_prop h (Str s) (Idx i) = Inr (if i < length s then Str [s ! i] else Undefined)"
| "get_prop h v k = Inr Undefined"

fun before :: "pkey \<Rightarrow> pkey \<Rightarrow> bool" where
  "before (Idx i) (Idx j) = (i < j)"
| "before (Idx i) (Name n) = True"
| "before k k' = False"

fun ins_prop :: "pkey \<Rightarrow> val \<Rightarrow> (pkey \<times> val) list \<Rightarrow> (pkey \<times> val) list" where
  "ins_prop k x [] = [(k, x)]"
| "ins_prop k x (p # ps) =
     (if fst p = k then (k, x) # ps
      else if before k (fst p) then (k, x) # p # ps
      else p # ins_prop k x ps)"

definition set_props :: "heap \<Rightarrow> nat \<Rightarrow> (pkey \<times> val) list \<Rightarrow> heap" where
  "set_props h a ps = h[a := (deref h a)\<lparr>props := ps\<rparr>]"

text \<open>
  The wrapper of a string holds the characters of the string at their indices, and these
  properties are read-only: they can be neither assigned nor deleted.
\<close>

definition characters :: "string \<Rightarrow> (pkey \<times> val) list" where
  "characters s = map (\<lambda>i. (Idx i, Str [s ! i])) [0..<length s]"

fun read_only :: "obj \<Rightarrow> pkey \<Rightarrow> bool" where
  "read_only ob (Idx i) = (case primitive ob of Str s \<Rightarrow> i < length s | _ \<Rightarrow> False)"
| "read_only ob (Name n) = False"

text \<open>
  \<^verbatim>\<open>v[k] = x\<close>. The bodies of a class are strict code, where the assignment throws a
  TypeError on a primitive as it does on \<^verbatim>\<open>undefined\<close> and \<^verbatim>\<open>null\<close>, and
  on a read-only property.
\<close>

fun put_prop :: "heap \<Rightarrow> val \<Rightarrow> pkey \<Rightarrow> val \<Rightarrow> error + heap" where
  "put_prop h (Ref a) k x =
     (if read_only (deref h a) k then Inl TypeError
      else Inr (set_props h a (ins_prop k x (props (deref h a)))))"
| "put_prop h v k x = Inl TypeError"

text \<open>
  \<^verbatim>\<open>delete v[k]\<close>, in strict code: a TypeError on \<^verbatim>\<open>undefined\<close> and
  \<^verbatim>\<open>null\<close> and on a read-only property, which the characters of a string are too.
\<close>

fun delete_prop :: "heap \<Rightarrow> val \<Rightarrow> pkey \<Rightarrow> error + heap" where
  "delete_prop h Undefined k = Inl TypeError"
| "delete_prop h Null k = Inl TypeError"
| "delete_prop h (Ref a) k =
     (if read_only (deref h a) k then Inl TypeError
      else Inr (set_props h a (filter (\<lambda>p. fst p \<noteq> k) (props (deref h a)))))"
| "delete_prop h (Str s) (Idx i) = (if i < length s then Inl TypeError else Inr h)"
| "delete_prop h v k = Inr h"

text \<open>
  \<^verbatim>\<open>for (key in v)\<close>: the keys are those \<open>v\<close> has when the loop starts
  (\<^verbatim>\<open>undefined\<close> and \<^verbatim>\<open>null\<close> have none, a string has its indices); a key that
  has been deleted when its turn comes is skipped. All the loops of the source keep their
  state in the heap.
\<close>

fun keys_in :: "heap \<Rightarrow> val \<Rightarrow> pkey list" where
  "keys_in h (Ref a) = map fst (props (deref h a))"
| "keys_in h (Str s) = map Idx [0..<length s]"
| "keys_in h v = []"

definition has_key :: "heap \<Rightarrow> val \<Rightarrow> pkey \<Rightarrow> bool" where
  "has_key h v k = (k \<in> set (keys_in h v))"

fun for_in :: "(heap \<Rightarrow> pkey \<Rightarrow> heap run) \<Rightarrow> val \<Rightarrow> pkey list \<Rightarrow> heap \<Rightarrow> heap run" where
  "for_in body ob [] h = returns h"
| "for_in body ob (k # ks) h =
     (if has_key h ob k then bindR (body h k) (for_in body ob ks) else for_in body ob ks h)"

text \<open>
  \<^verbatim>\<open>Array.prototype.map\<close>: the result array is created first, the indices below
  the length the array has at the call are visited in order, and an index that holds no
  element is skipped.
\<close>

fun array_length :: "(pkey \<times> val) list \<Rightarrow> nat" where
  "array_length [] = 0"
| "array_length ((Idx i, v) # ps) = max (Suc i) (array_length ps)"
| "array_length ((Name n, v) # ps) = array_length ps"

fun map_each ::
  "(heap \<Rightarrow> val \<Rightarrow> (heap \<times> val) run) \<Rightarrow> nat \<Rightarrow> nat list \<Rightarrow> heap \<Rightarrow> (pkey \<times> val) list
     \<Rightarrow> (heap \<times> (pkey \<times> val) list) run" where
  "map_each f a [] h acc = returns (h, acc)"
| "map_each f a (i # is) h acc =
     (if has_key h (Ref a) (Idx i)
      then bindR (f h (own_prop (props (deref h a)) (Idx i)))
             (\<lambda>(h', y). map_each f a is h' (acc @ [(Idx i, y)]))
      else map_each f a is h acc)"

definition array_map ::
  "(heap \<Rightarrow> val \<Rightarrow> (heap \<times> val) run) \<Rightarrow> heap \<Rightarrow> val \<Rightarrow> (heap \<times> val) run" where
  "array_map f h arr =
     (case arr of
        Ref a \<Rightarrow>
          (let (h1, res) = alloc h empty_array
           in bindR (map_each f a [0..<array_length (props (deref h a))] h1 [])
                (\<lambda>(h2, ps). returns (set_props h2 (length h) ps, res)))
      | _ \<Rightarrow> Some (Inl TypeError))"

subsection \<open>lodash: \<^verbatim>\<open>_.merge\<close> and \<^verbatim>\<open>_.indexOf\<close>\<close>

text \<open>
  \<^verbatim>\<open>_.merge(object, source)\<close> (lodash 4) writes into \<open>object\<close> and returns it. For
  each key of the source: a value that is not an object is assigned, except that
  \<^verbatim>\<open>undefined\<close> never overwrites a key the destination has (\<^verbatim>\<open>assignMergeValue\<close>);
  an array or plain object is merged recursively into the destination's value under that
  key when that is an object (an array, for an array), and into a new array or object
  otherwise (\<^verbatim>\<open>baseMergeDeep\<close>); a wrapper, which is neither an array nor a plain
  object, is assigned as it is. A stack maps every source object being merged to its
  destination; a source found on the stack is not entered again, the destination recorded
  for it is assigned. The recursion is bounded by fuel.

  lodash is not strict code: its assignment to a read-only property does nothing.
\<close>

definition assignMergeValue :: "heap \<Rightarrow> nat \<Rightarrow> pkey \<Rightarrow> val \<Rightarrow> heap" where
  "assignMergeValue h object key v =
     (if ((v \<noteq> Undefined \<and> own_prop (props (deref h object)) key \<noteq> v)
          \<or> (v = Undefined \<and> \<not> has_key h (Ref object) key))
         \<and> \<not> read_only (deref h object) key
      then set_props h object (ins_prop key v (props (deref h object)))
      else h)"

definition source_prop :: "heap \<Rightarrow> val \<Rightarrow> pkey \<Rightarrow> val" where
  "source_prop h source key = (case get_prop h source key of Inl e \<Rightarrow> Undefined | Inr v \<Rightarrow> v)"

text \<open>
  The destination of a recursive merge, for a source array (\<open>isArr\<close>) or a source plain
  object. For an array: the destination's value when that is an array, a new array of its
  characters when it is the wrapper of a string (\<^verbatim>\<open>copyArray\<close> of an array-like
  object), a new empty array otherwise. For a plain object: the destination's value when
  that is an object, a new empty object otherwise.
\<close>

definition copyArray :: "obj \<Rightarrow> obj" where
  "copyArray ob =
     empty_array\<lparr>props := (case primitive ob of Str s \<Rightarrow> characters s | _ \<Rightarrow> [])\<rparr>"

fun merge_target :: "heap \<Rightarrow> bool \<Rightarrow> val \<Rightarrow> heap \<times> nat" where
  "merge_target h True (Ref ov) =
     (if is_array (deref h ov) then (h, ov) else new_object h (copyArray (deref h ov)))"
| "merge_target h False (Ref ov) = (h, ov)"
| "merge_target h isArr objValue = new_object h (if isArr then empty_array else empty_object)"

fun baseMerge :: "nat \<Rightarrow> (nat \<times> nat) list \<Rightarrow> heap \<Rightarrow> nat \<Rightarrow> val \<Rightarrow> heap option"
  and baseMergeKeys ::
    "nat \<Rightarrow> (nat \<times> nat) list \<Rightarrow> heap \<Rightarrow> nat \<Rightarrow> val \<Rightarrow> pkey list \<Rightarrow> heap option" where
  "baseMerge 0 stack h object source = None"
| "baseMerge (Suc n) stack h object source =
     (if Ref object = source then Some h
      else baseMergeKeys n stack h object source (keys_in h source))"
| "baseMergeKeys n stack h object source [] = Some h"
| "baseMergeKeys n stack h object source (key # keys) =
     (case source_prop h source key of
        Ref s \<Rightarrow>
          (case map_of stack s of
             Some stacked \<Rightarrow>
               baseMergeKeys n stack (assignMergeValue h object key (Ref stacked)) object source keys
           | None \<Rightarrow>
               if primitive (deref h s) \<noteq> Undefined
               then baseMergeKeys n stack (assignMergeValue h object key (Ref s)) object source keys
               else
                 (let (h1, newValue) =
                        merge_target h (is_array (deref h s)) (own_prop (props (deref h object)) key)
                  in case baseMerge n ((s, newValue) # stack) h1 newValue (Ref s) of
                       None \<Rightarrow> None
                     | Some h2 \<Rightarrow>
                         baseMergeKeys n stack (assignMergeValue h2 object key (Ref newValue))
                           object source keys))
      | srcValue \<Rightarrow>
          baseMergeKeys n stack (assignMergeValue h object key srcValue) object source keys)"

text \<open>
  \<^verbatim>\<open>Object(object)\<close>, which \<^verbatim>\<open>_.merge\<close> applies to its destination: an object is
  itself, \<^verbatim>\<open>undefined\<close> and \<^verbatim>\<open>null\<close> give a new empty object, a primitive gives
  a new wrapper (of a string, with its characters as read-only properties).
\<close>

fun toObject :: "heap \<Rightarrow> val \<Rightarrow> heap \<times> nat" where
  "toObject h (Ref a) = (h, a)"
| "toObject h Undefined = new_object h empty_object"
| "toObject h Null = new_object h empty_object"
| "toObject h (Str s) =
     new_object h \<lparr>is_array = False, props = characters s, primitive = Str s\<rparr>"
| "toObject h v = new_object h \<lparr>is_array = False, props = [], primitive = v\<rparr>"

definition merge :: "nat \<Rightarrow> heap \<Rightarrow> val \<Rightarrow> val \<Rightarrow> (heap \<times> val) run" where
  "merge n h object source =
     (let (h1, a) = toObject h object
      in if truthy source
         then (case baseMerge n [] h1 a source of
                 None \<Rightarrow> None
               | Some h2 \<Rightarrow> returns (h2, Ref a))
         else returns (h1, Ref a))"

text \<open>\<^verbatim>\<open>_.indexOf(array, value)\<close>: the first position of the value, or -1.\<close>

fun indexOf :: "val list \<Rightarrow> val \<Rightarrow> int" where
  "indexOf [] v = - 1"
| "indexOf (x # xs) v =
     (if x = v then 0 else (let i = indexOf xs v in if i < 0 then - 1 else i + 1))"

subsection \<open>Contentful.js: resolving the locales of a field set\<close>

text \<open>
  The locale configuration \<^verbatim>\<open>this.locales\<close> is absent (\<open>None\<close>) or a list of fallback
  groups, each a list of locale codes; a group is an array, so the branch
  \<^verbatim>\<open>locale.constructor !== Array\<close> of \<^verbatim>\<open>_getLocaleString\<close> is not taken.

  \<^verbatim>\<open>_getLocaleString\<close> (Contentful.js 302-316):
  \<^verbatim>\<open>
  locale.forEach((currentLocale) => {
    if (field[currentLocale] && !localizedField) {
      localizedField = field[currentLocale];
    }
  });
  return localizedField;
  \<close>
\<close>

fun getLocaleString_each :: "heap \<Rightarrow> val \<Rightarrow> string list \<Rightarrow> val \<Rightarrow> error + val" where
  "getLocaleString_each h field [] localizedField = Inr localizedField"
| "getLocaleString_each h field (currentLocale # rest) localizedField =
     bindE (get_prop h field (Name currentLocale))
       (\<lambda>v. getLocaleString_each h field rest
               (if truthy v \<and> \<not> truthy localizedField then v else localizedField))"

definition getLocaleString :: "heap \<Rightarrow> val \<Rightarrow> string list \<Rightarrow> error + val" where
  "getLocaleString h field locale = getLocaleString_each h field locale Undefined"

text \<open>\<^verbatim>\<open>locale[0]\<close>.\<close>

fun first_code :: "string list \<Rightarrow> val" where
  "first_code [] = Undefined"
| "first_code (c # cs) = Str c"

text \<open>
  \<^verbatim>\<open>_getFieldsForLocale\<close> (Contentful.js 284-294):
  \<^verbatim>\<open>
  let entry = {};
  for (let key in fields) { entry[key] = this._getLocaleString(fields[key], locale); }
  entry.locale = locale[0];
  return entry;
  \<close>
\<close>

definition getFieldsForLocale :: "heap \<Rightarrow> val \<Rightarrow> string list \<Rightarrow> (heap \<times> val) run" where
  "getFieldsForLocale h flds locale =
     (let (h0, entry) = alloc h empty_object
      in bindR
           (for_in
              (\<lambda>h1 key.
                 Some (bindE (get_prop h1 flds key)
                   (\<lambda>field. bindE (getLocaleString h1 field locale)
                      (\<lambda>v. put_prop h1 entry key v))))
              flds (keys_in h0 flds) h0)
           (\<lambda>h2. bindR (Some (put_prop h2 entry (Name ''locale'') (first_code locale)))
                   (\<lambda>h3. returns (h3, entry))))"

subsection \<open>Contentful.js: cleaning an entry\<close>

text \<open>
  \<^verbatim>\<open>_cleanEntry(entry, full)\<close> (Contentful.js 177-217), in four steps. The content
  type is read from \<^verbatim>\<open>entry.sys.contentType.sys.id\<close>:
\<close>

definition entry_contentType :: "heap \<Rightarrow> val \<Rightarrow> error + val" where
  "entry_contentType h sys =
     bindE (get_prop h sys (Name ''contentType''))
       (\<lambda>ct. if truthy ct
             then bindE (get_prop h ct (Name ''sys'')) (\<lambda>s. get_prop h s (Name ''id''))
             else Inr (Bool False))"

text \<open>
  \<^verbatim>\<open>
  if (full) { delete entry.sys; }
  else {
    delete entry.sys.space; delete entry.sys.contentType;
    delete entry.sys.type; delete entry.sys.revision;
    newEntry = entry.sys;
  }
  \<close>
\<close>

definition strip_sys :: "heap \<Rightarrow> val \<Rightarrow> val \<Rightarrow> val \<Rightarrow> bool \<Rightarrow> error + heap \<times> val" where
  "strip_sys h entry sys newEntry full =
     (if full
      then bindE (delete_prop h entry (Name ''sys'')) (\<lambda>h1. Inr (h1, newEntry))
      else
        bindE (delete_prop h sys (Name ''space'')) (\<lambda>h1.
        bindE (delete_prop h1 sys (Name ''contentType'')) (\<lambda>h2.
        bindE (delete_prop h2 sys (Name ''type'')) (\<lambda>h3.
        bindE (delete_prop h3 sys (Name ''revision'')) (\<lambda>h4. Inr (h4, sys))))))"

text \<open>
  \<^verbatim>\<open>
  if (typeof newEntry.fields === 'object' && !newEntry.fields.contentType) {
    newEntry.fields.contentType = {};
    this.locales.forEach((locale) => {
      locale.forEach((string) => { newEntry.fields.contentType[string] = contentType; });
    });
  }
  \<close>
  \<^verbatim>\<open>this.locales.forEach\<close> throws a TypeError when the configuration is absent.
\<close>

fun contentType_each :: "heap \<Rightarrow> val \<Rightarrow> val \<Rightarrow> string list \<Rightarrow> error + heap" where
  "contentType_each h target contentType [] = Inr h"
| "contentType_each h target contentType (string # rest) =
     bindE (put_prop h target (Name string) contentType)
       (\<lambda>h'. contentType_each h' target contentType rest)"

definition tag_fields ::
  "string list list option \<Rightarrow> heap \<Rightarrow> val \<Rightarrow> val \<Rightarrow> error + heap" where
  "tag_fields locales h newEntry contentType =
     bindE (get_prop h newEntry (Name ''fields'')) (\<lambda>newFields.
       if typeof_object newFields
       then
         bindE (get_prop h newFields (Name ''contentType'')) (\<lambda>existing.
           if \<not> truthy existing
           then
             (let (h1, tag) = alloc h empty_object
              in bindE (put_prop h1 newFields (Name ''contentType'') tag) (\<lambda>h2.
                   case locales of
                     None \<Rightarrow> Inl TypeError
                   | Some groups \<Rightarrow> contentType_each h2 tag contentType (concat groups)))
           else Inr h)
       else Inr h)"

text \<open>
  The whole of \<^verbatim>\<open>_cleanEntry\<close>: \<^verbatim>\<open>newEntry = {}\<close>, \<^verbatim>\<open>newEntry.fields = {}\<close>,
  the early return on a falsy entry, the system envelope, \<^verbatim>\<open>newEntry.fields = entry.fields\<close>
  and the content-type tag.
\<close>

definition cleanEntry ::
  "string list list option \<Rightarrow> heap \<Rightarrow> val \<Rightarrow> bool \<Rightarrow> error + heap \<times> val" where
  "cleanEntry locales h entry full =
     (let (h1, newEntry) = alloc h empty_object;
          (h2, emptyFields) = alloc h1 empty_object
      in bindE (put_prop h2 newEntry (Name ''fields'') emptyFields) (\<lambda>h3.
         if \<not> truthy entry then Inr (h3, newEntry)
         else
           bindE (get_prop h3 entry (Name ''sys'')) (\<lambda>sys.
           bindE
             (if truthy sys
              then bindE (entry_contentType h3 sys) (\<lambda>contentType.
                   bindE (strip_sys h3 entry sys newEntry full) (\<lambda>(h4, newEntry').
                     Inr (h4, newEntry', contentType)))
              else Inr (h3, newEntry, Bool False))
             (\<lambda>(h5, newEntry', contentType).
                bindE (get_prop h5 entry (Name ''fields'')) (\<lambda>flds.
                bindE (put_prop h5 newEntry' (Name ''fields'') flds) (\<lambda>h6.
                bindE (tag_fields locales h6 newEntry' contentType) (\<lambda>h7.
                  Inr (h7, newEntry'))))))))"

text \<open>
  \<^verbatim>\<open>_mergeFields(entry = {}, fields = {})\<close> (Contentful.js 225-230):
  \<^verbatim>\<open>entry = merge(entry, fields); delete entry.fields; return entry;\<close>
\<close>

definition mergeFields :: "nat \<Rightarrow> heap \<Rightarrow> val \<Rightarrow> val \<Rightarrow> (heap \<times> val) run" where
  "mergeFields n h entry flds =
     (let (h1, entry1) = (if entry = Undefined then alloc h empty_object else (h, entry));
          (h2, flds1) = (if flds = Undefined then alloc h1 empty_object else (h1, flds))
      in bindR (merge n h2 entry1 flds1)
           (\<lambda>(h3, entry2). bindR (Some (delete_prop h3 entry2 (Name ''fields'')))
              (\<lambda>h4. returns (h4, entry2))))"

subsection \<open>Contentful.js: nested entries\<close>

text \<open>
  \<^verbatim>\<open>_getFields\<close> (Contentful.js 268-276) and \<^verbatim>\<open>_getFieldEntry\<close> (239-260),
  which call each other through the arrays of nested entries. Both return \<^verbatim>\<open>fields\<close>,
  the object they were given, so the embedding returns the heap.
  \<^verbatim>\<open>
  if (!fields[key]) { return fields; }
  if (fields[key].constructor === Array) {
    fields[key] = fields[key].map((entry) => {
      if (!(entry instanceof Object)) { return entry; }
      entry = this._cleanEntry(entry, true);
      entry = this._mergeFields(entry, entry.fields);
      entry = this._getFields(entry, locale);
      entry = this._getFieldsForLocale(entry, locale);
      return entry;
    });
  }
  return fields;
  \<close>
\<close>

fun getFields :: "nat \<Rightarrow> string list list option \<Rightarrow> heap \<Rightarrow> val \<Rightarrow> string list \<Rightarrow> heap run"
  and getFieldEntry ::
    "nat \<Rightarrow> string list list option \<Rightarrow> heap \<Rightarrow> val \<Rightarrow> pkey \<Rightarrow> string list \<Rightarrow> heap run" where
  "getFields 0 locales h flds locale = None"
| "getFields (Suc n) locales h flds locale =
     for_in (\<lambda>h1 key. getFieldEntry n locales h1 flds key locale) flds (keys_in h flds) h"
| "getFieldEntry n locales h flds key locale =
     bindR (Some (get_prop h flds key)) (\<lambda>v.
       if \<not> truthy v then returns h
       else if constructor_is_Array h v
       then
         bindR
           (array_map
              (\<lambda>h1 entry.
                 if \<not> instanceof_Object entry then returns (h1, entry)
                 else
                   bindR (Some (cleanEntry locales h1 entry True)) (\<lambda>(h2, entry1).
                   bindR (Some (get_prop h2 entry1 (Name ''fields''))) (\<lambda>entryFields.
                   bindR (mergeFields n h2 entry1 entryFields) (\<lambda>(h3, entry2).
                   bindR (getFields n locales h3 entry2 locale) (\<lambda>h4.
                   getFieldsForLocale h4 entry2 locale)))))
              h v)
           (\<lambda>(h5, mapped). Some (put_prop h5 flds key mapped))
       else returns h)"

text \<open>
  \<^verbatim>\<open>_cleanLocales\<close> (Contentful.js 159-169):
  \<^verbatim>\<open>
  for (let key in entry) {
    if (typeof entry[key] === 'object') {
      if (entry[key].fields) {
        entry[key] = this._getFieldsForLocale(entry[key].fields, locale);
      }
    }
  }
  return entry;
  \<close>
\<close>

definition cleanLocales :: "heap \<Rightarrow> val \<Rightarrow> string list \<Rightarrow> heap run" where
  "cleanLocales h entry locale =
     for_in
       (\<lambda>h1 key.
          bindR (Some (get_prop h1 entry key)) (\<lambda>v.
            if typeof_object v
            then bindR (Some (get_prop h1 v (Name ''fields''))) (\<lambda>vFields.
                   if truthy vFields
                   then bindR (getFieldsForLocale h1 vFields locale)
                          (\<lambda>(h2, localized). Some (put_prop h2 entry key localized))
                   else returns h1)
            else returns h1))
       entry (keys_in h entry) h"

text \<open>
  \<^verbatim>\<open>_cleanMore(entry, locale, cleanStack)\<close> (Contentful.js 117-151). The argument
  \<^verbatim>\<open>cleanStack\<close> is absent (\<open>None\<close>) or a stack of values.
  \<^verbatim>\<open>
  let newEntry = {};
  cleanStack = cleanStack || [];
  if (_.indexOf(cleanStack, entry)) {
    // circular reference detected, do not re-process this entry
    return entry;
  }
  for (let key in entry) {
    if (typeof entry[key] === 'object') {
      if (entry[key].sys) {
        newEntry[key] = this._cleanEntry(entry[key]);
      } else if (entry[key].elements && entry[key].elements.constructor === Array) {
        newEntry[key] = {};
        newEntry[key].elements = entry[key].elements.map((entry) => {
          entry = this._cleanEntry(entry, true);
          return this._getFieldsForLocale(entry.fields, locale);
        });
        delete entry[key].elements;
        newEntry[key] = merge(entry[key], newEntry[key]);
      } else {
        cleanStack.push(entry);
        newEntry[key] = this._cleanMore(entry[key], locale, cleanStack);
        cleanStack.pop();
      }
    }
  }
  return merge(entry, newEntry);
  \<close>
  The test \<^verbatim>\<open>if (_.indexOf(cleanStack, entry))\<close> is the truthiness of a number: it
  holds unless the index is 0. A push followed by the matching pop leaves the stack as it
  was, so the recursive call receives the stack extended and the loop goes on with the
  stack it had.
\<close>

fun cleanMore ::
  "nat \<Rightarrow> string list list option \<Rightarrow> heap \<Rightarrow> val \<Rightarrow> string list \<Rightarrow> val list option
     \<Rightarrow> (heap \<times> val) run" where
  "cleanMore 0 locales h entry locale cleanStack = None"
| "cleanMore (Suc n) locales h entry locale cleanStack =
     (let (h0, newEntry) = alloc h empty_object;
          stack = (case cleanStack of None \<Rightarrow> [] | Some s \<Rightarrow> s)
      in if indexOf stack entry \<noteq> 0 then returns (h0, entry)
         else
           bindR
             (for_in
                (\<lambda>h1 key.
                   bindR (Some (get_prop h1 entry key)) (\<lambda>v.
                     if typeof_object v
                     then
                       bindR (Some (get_prop h1 v (Name ''sys''))) (\<lambda>vSys.
                         if truthy vSys
                         then bindR (Some (cleanEntry locales h1 v False))
                                (\<lambda>(h2, cleaned). Some (put_prop h2 newEntry key cleaned))
                         else
                           bindR (Some (get_prop h1 v (Name ''elements''))) (\<lambda>elements.
                             if truthy elements \<and> constructor_is_Array h1 elements
                             then
                               (let (h2, holder) = alloc h1 empty_object
                                in bindR (Some (put_prop h2 newEntry key holder)) (\<lambda>h3.
                                   bindR
                                     (array_map
                                        (\<lambda>h4 element.
                                           bindR (Some (cleanEntry locales h4 element True))
                                             (\<lambda>(h5, element1).
                                                bindR (Some (get_prop h5 element1 (Name ''fields'')))
                                                  (\<lambda>elementFields.
                                                     getFieldsForLocale h5 elementFields locale)))
                                        h3 elements)
                                     (\<lambda>(h6, mapped).
                                        bindR (Some (put_prop h6 holder (Name ''elements'') mapped)) (\<lambda>h7.
                                        bindR (Some (get_prop h7 entry key)) (\<lambda>v1.
                                        bindR (Some (delete_prop h7 v1 (Name ''elements''))) (\<lambda>h8.
                                        bindR (Some (get_prop h8 entry key)) (\<lambda>v2.
                                        bindR (Some (get_prop h8 newEntry key)) (\<lambda>nv.
                                        bindR (merge n h8 v2 nv) (\<lambda>(h9, merged).
                                          Some (put_prop h9 newEntry key merged))))))))))
                             else
                               bindR (cleanMore n locales h1 v locale (Some (stack @ [entry])))
                                 (\<lambda>(h2, cleaned). Some (put_prop h2 newEntry key cleaned))))
                     else returns h1))
                entry (keys_in h0 entry) h0)
             (\<lambda>h10. merge n h10 entry newEntry))"

subsection \<open>Contentful.js: one record per fallback group\<close>

text \<open>
  \<^verbatim>\<open>_getLocalizedEntries\<close> (Contentful.js 82-108) returns the array
  \<^verbatim>\<open>localizedEntries\<close>, or the single object of \<^verbatim>\<open>_mergeFields\<close> when the
  configuration is absent.
  \<^verbatim>\<open>
  let localizedEntries = [];
  entry = this._cleanEntry(entry);
  if (!this.locales) { return this._mergeFields(entry, entry.fields); }
  this.locales.forEach((locale) => {
    let newEntry = entry;
    let fields = newEntry.fields;
    fields = this._getFieldsForLocale(fields, locale);
    fields = this._getFields(fields, locale);
    newEntry = this._mergeFields(newEntry, fields);
    delete newEntry.fields;
    newEntry = this._cleanMore(newEntry, locale);
    newEntry = this._cleanLocales(newEntry, locale);
    localizedEntries.push(newEntry);
  });
  return localizedEntries;
  \<close>
  \<^verbatim>\<open>let newEntry = entry\<close> copies the reference: every round of the loop works on
  the one object \<^verbatim>\<open>entry\<close>.
\<close>

datatype localized = Entries "val list" | Entry val

fun each_locale ::
  "nat \<Rightarrow> string list list option \<Rightarrow> val \<Rightarrow> string list list \<Rightarrow> heap \<Rightarrow> val list
     \<Rightarrow> (heap \<times> val list) run" where
  "each_locale n locales entry [] h localizedEntries = returns (h, localizedEntries)"
| "each_locale n locales entry (locale # rest) h localizedEntries =
     bindR (Some (get_prop h entry (Name ''fields''))) (\<lambda>flds.
     bindR (getFieldsForLocale h flds locale) (\<lambda>(h1, flds1).
     bindR (getFields n locales h1 flds1 locale) (\<lambda>h2.
     bindR (mergeFields n h2 entry flds1) (\<lambda>(h3, newEntry).
     bindR (Some (delete_prop h3 newEntry (Name ''fields''))) (\<lambda>h4.
     bindR (cleanMore n locales h4 newEntry locale None) (\<lambda>(h5, newEntry1).
     bindR (cleanLocales h5 newEntry1 locale) (\<lambda>h6.
       each_locale n locales entry rest h6 (localizedEntries @ [newEntry1]))))))))"

definition getLocalizedEntries ::
  "nat \<Rightarrow> string list list option \<Rightarrow> heap \<Rightarrow> val \<Rightarrow> (heap \<times> localized) run" where
  "getLocalizedEntries n locales h entry0 =
     bindR (Some (cleanEntry locales h entry0 False)) (\<lambda>(h1, entry).
       case locales of
         None \<Rightarrow>
           bindR (Some (get_prop h1 entry (Name ''fields''))) (\<lambda>flds.
           bindR (mergeFields n h1 entry flds) (\<lambda>(h2, merged). returns (h2, Entry merged)))
       | Some groups \<Rightarrow>
           bindR (each_locale n locales entry groups h1 [])
             (\<lambda>(h2, localizedEntries). returns (h2, Entries localizedEntries)))"

section \<open>Example data\<close>

text \<open>Records and hits for the diff.\<close>

definition rec_ab_c :: jobject where
  "rec_ab_c = [(''id'', JStr ''ab''), (''locale'', JStr ''c''), (''contentType'', JStr ''page''),
               (''title'', JStr ''A'')]"

definition hit_ab_c :: jobject where
  "hit_ab_c = [(''id'', JStr ''ab''), (''locale'', JStr ''c''), (''contentType'', JStr ''page''),
               (''title'', JStr ''A''), (''objectID'', JStr ''o1'')]"

definition hit_ab_c_stale :: jobject where
  "hit_ab_c_stale = [(''id'', JStr ''ab''), (''locale'', JStr ''c''), (''contentType'', JStr ''page''),
               (''title'', JStr ''B''), (''objectID'', JStr ''o3'')]"

definition hit_e2_en :: jobject where
  "hit_e2_en = [(''id'', JStr ''e2''), (''locale'', JStr ''en''), (''contentType'', JStr ''page''),
                (''objectID'', JStr ''o2'')]"

definition hit_post :: jobject where
  "hit_post = [(''id'', JStr ''e2''), (''locale'', JStr ''en''), (''contentType'', JStr ''post''),
                (''objectID'', JStr ''o9'')]"

definition one_record :: records where
  "one_record = (\<lambda>a. [])(0 := rec_ab_c)"

definition two_records :: records where
  "two_records = (\<lambda>a. [])
     (0 := [(''id'', JStr ''e1''), (''locale'', JStr ''en''), (''contentType'', JStr ''page'')],
      1 := [(''id'', JStr ''e2''), (''locale'', JStr ''en''), (''contentType'', JStr ''post'')])"

text \<open>
  Raw entries in the heap. \<open>entry_page\<close> holds, at address 0, the entry
  \<^verbatim>\<open>{sys: {id: "e1", contentType: {sys: {id: "page"}}}, fields: {title: {en: "A", de: "B"}}}\<close>.
\<close>

definition plain :: "(string \<times> val) list \<Rightarrow> obj" where
  "plain ps = \<lparr>is_array = False, props = map (\<lambda>p. (Name (fst p), snd p)) ps,
                primitive = Undefined\<rparr>"

definition entry_page :: heap where
  "entry_page =
     [plain [(''sys'', Ref 1), (''fields'', Ref 4)],
      plain [(''id'', Str ''e1''), (''contentType'', Ref 2)],
      plain [(''sys'', Ref 3)],
      plain [(''id'', Str ''page'')],
      plain [(''title'', Ref 5)],
      plain [(''en'', Str ''A''), (''de'', Str ''B'')]]"

text \<open>
  \<open>entry_self\<close> holds, at address 0, an entry whose field \<^verbatim>\<open>self\<close> references the
  entry itself under the locale \<^verbatim>\<open>en\<close>; \<open>object_loop\<close> an object whose property
  \<^verbatim>\<open>self\<close> is the object.
\<close>

definition entry_self :: heap where
  "entry_self =
     [plain [(''sys'', Ref 1), (''fields'', Ref 2)],
      plain [(''id'', Str ''e1'')],
      plain [(''self'', Ref 3)],
      plain [(''en'', Ref 0)]]"






text \<open>
  \<open>falsy_fields\<close> holds, at address 0, the field set
  \<^verbatim>\<open>{title: {en: "", de: "B"}, count: {en: 0}}\<close>.
\<close>

definition falsy_fields :: heap where
  "falsy_fields =
     [plain [(''title'', Ref 1), (''count'', Ref 2)],
      plain [(''en'', Str ''''), (''de'', Str ''B'')],
      plain [(''en'', Num 0)]]"

text \<open>
  The claim C4 in its own words: the value of the first locale code of the group that is
  a key of the field's mapping, \<^verbatim>\<open>undefined\<close> when none is. And what the code
  computes: the first truthy value in a list of values.
\<close>

definition first_present :: "heap \<Rightarrow> nat \<Rightarrow> string list \<Rightarrow> val" where
  "first_present h f locale =
     (case filter (\<lambda>c. has_key h (Ref f) (Name c)) locale of
        [] \<Rightarrow> Undefined
      | c # cs \<Rightarrow> own_prop (props (deref h f)) (Name c))"

definition first_truthy :: "val list \<Rightarrow> val" where
  "first_truthy vs = (case filter truthy vs of [] \<Rightarrow> Undefined | v # rest \<Rightarrow> v)"


text \<open>A record \<open>r\<close> is \<open>r0\<close> with a truthy \<^verbatim>\<open>objectID\<close> attached.\<close>

definition attached :: "jobject \<Rightarrow> jobject \<Rightarrow> bool" where
  "attached r0 r = (\<exists>v. jtruthy v \<and> r = AList.update ''objectID'' v r0)"

section \<open>Properties\<close>

subsection \<open>The fingerprint\<close>

lemma getEntryKey_strings:
  "jget e ''id'' = JStr i \<Longrightarrow> jget e ''locale'' = JStr l
     \<Longrightarrow> getEntryKey e = Inr (digest_hex (map of_char (i @ l)))"
  by (simp add: getEntryKey_def hash_update_def createHash_def)

text \<open>
  C1, as stated, fails: the records with \<open>id = "ab", locale = "c"\<close> and with
  \<open>id = "a", locale = "bc"\<close> differ in both fields and have the same fingerprint, since the
  two updates feed the digest the same bytes \<open>"abc"\<close>.
\<close>

theorem getEntryKey_collision:
  "getEntryKey [(''id'', JStr ''ab''), (''locale'', JStr ''c'')]
     = getEntryKey [(''id'', JStr ''a''), (''locale'', JStr ''bc'')]
   \<and> (JStr ''ab'', JStr ''c'') \<noteq> (JStr ''a'', JStr ''bc'')"
  by (simp add: getEntryKey_def jget_def hash_update_def createHash_def)

text \<open>
  C1, amended: the fingerprint depends on the concatenation of \<open>id\<close> and \<open>locale\<close> only.
  Two records whose \<open>id\<close> and \<open>locale\<close> are strings with the same concatenation have the
  same fingerprint; in particular records with equal \<open>(id, locale)\<close> do.
\<close>

theorem getEntryKey_concat:
  assumes "jget e1 ''id'' = JStr i1" and "jget e1 ''locale'' = JStr l1"
    and "jget e2 ''id'' = JStr i2" and "jget e2 ''locale'' = JStr l2"
    and "i1 @ l1 = i2 @ l2"
  shows "getEntryKey e1 = getEntryKey e2"
proof -
  have "getEntryKey e1 = Inr (digest_hex (map of_char (i1 @ l1)))"
    using assms(1,2) by (rule getEntryKey_strings)
  moreover have "getEntryKey e2 = Inr (digest_hex (map of_char (i2 @ l2)))"
    using assms(3,4) by (rule getEntryKey_strings)
  ultimately show ?thesis using assms(5) by simp
qed

text \<open>
  The hypotheses of the theorem hold of two records that differ in both fields and have the
  concatenation \<open>"e1en-US"\<close>.
\<close>

theorem getEntryKey_concat_witness:
  "getEntryKey [(''id'', JStr ''e1''), (''locale'', JStr ''en-US'')]
     = getEntryKey [(''locale'', JStr ''n-US''), (''id'', JStr ''e1e'')]"
  by (rule getEntryKey_concat [of _ "''e1''" "''en-US''" _ "''e1e''" "''n-US''"])
     (simp_all add: jget_def)

subsection \<open>The commit\<close>

text \<open>
  C8: on a batch whose three lists are empty, \<^verbatim>\<open>indexObjects\<close> leaves the world as it
  is, so the log of requests gets no entry, and it returns the empty list of identifiers.
\<close>

theorem commit_empty_batch:
  "indexObjects srv w [] [] [] = (w, Inr [])"
  by (simp add: indexObjects_def addObjects_def updateObjects_def deleteObjects_def
      getMergedObjects_def)

subsection \<open>The diff\<close>

lemma jget_update_other:
  "k \<noteq> k' \<Longrightarrow> jget (AList.update k' v obj) k = jget obj k"
  by (simp add: jget_def update_conv')

lemma jget_update_same:
  "jget (AList.update k v obj) k = v"
  by (simp add: jget_def update_conv')

lemma getEntryKey_update_objectID:
  "getEntryKey (AList.update ''objectID'' v obj) = getEntryKey obj"
  by (simp add: getEntryKey_def jget_update_other cong: jval.case_cong)

lemma keyBy_Cons:
  "keyBy recs (b # data) idx0 = Inr idx
     \<Longrightarrow> \<exists>kb. getEntryKey (recs b) = Inr kb \<and> keyBy recs data (idx0(kb \<mapsto> b)) = Inr idx"
  by (cases "getEntryKey (recs b)") simp_all

lemma keyBy_other:
  "keyBy recs data idx0 = Inr idx \<Longrightarrow> \<forall>a\<in>set data. getEntryKey (recs a) \<noteq> Inr k
     \<Longrightarrow> idx k = idx0 k"
proof (induction data arbitrary: idx0)
  case Nil
  then show ?case by simp
next
  case (Cons b data)
  from keyBy_Cons [OF Cons.prems(1)] obtain kb where
    kb: "getEntryKey (recs b) = Inr kb" and run: "keyBy recs data (idx0(kb \<mapsto> b)) = Inr idx"
    by blast
  from Cons.prems(2) kb have "kb \<noteq> k" by auto
  moreover have "idx k = (idx0(kb \<mapsto> b)) k"
    using Cons.IH [OF run] Cons.prems(2) by simp
  ultimately show ?case by simp
qed

lemma keyBy_Some:
  "keyBy recs data idx0 = Inr idx \<Longrightarrow> idx k = Some a
     \<Longrightarrow> idx0 k = Some a \<or> (a \<in> set data \<and> getEntryKey (recs a) = Inr k)"
proof (induction data arbitrary: idx0)
  case Nil
  then show ?case by simp
next
  case (Cons b data)
  from keyBy_Cons [OF Cons.prems(1)] obtain kb where
    kb: "getEntryKey (recs b) = Inr kb" and run: "keyBy recs data (idx0(kb \<mapsto> b)) = Inr idx"
    by blast
  from Cons.IH [OF run Cons.prems(2)]
  have "(idx0(kb \<mapsto> b)) k = Some a \<or> (a \<in> set data \<and> getEntryKey (recs a) = Inr k)" .
  then show ?case
  proof
    assume h: "(idx0(kb \<mapsto> b)) k = Some a"
    show ?thesis
    proof (cases "kb = k")
      case True
      with h kb show ?thesis by simp
    next
      case False
      with h show ?thesis by simp
    qed
  next
    assume "a \<in> set data \<and> getEntryKey (recs a) = Inr k"
    then show ?thesis by simp
  qed
qed

lemma keyBy_only:
  "keyBy recs data idx0 = Inr idx \<Longrightarrow> a \<in> set data \<Longrightarrow> getEntryKey (recs a) = Inr k
     \<Longrightarrow> \<forall>b\<in>set data. getEntryKey (recs b) = Inr k \<longrightarrow> b = a \<Longrightarrow> idx k = Some a"
proof (induction data arbitrary: idx0)
  case Nil
  then show ?case by simp
next
  case (Cons b data)
  from keyBy_Cons [OF Cons.prems(1)] obtain kb where
    kb: "getEntryKey (recs b) = Inr kb" and run: "keyBy recs data (idx0(kb \<mapsto> b)) = Inr idx"
    by blast
  have only: "\<forall>c\<in>set data. getEntryKey (recs c) = Inr k \<longrightarrow> c = a"
    using Cons.prems(4) by simp
  show ?case
  proof (cases "a \<in> set data")
    case True
    show ?thesis by (rule Cons.IH [OF run True Cons.prems(3) only])
  next
    case False
    with Cons.prems(2) have ba: "b = a" by simp
    with kb Cons.prems(3) have kk: "kb = k" by simp
    have "\<forall>c\<in>set data. getEntryKey (recs c) \<noteq> Inr k"
      using only False by blast
    from keyBy_other [OF run this] show ?thesis using ba kk by simp
  qed
qed

lemma each_hit_Cons:
  assumes "each_hit idx flt (hit # hits) (recs, upd, del) = Inr r"
  obtains key a where "getEntryKey hit = Inr key" and "idx key = Some a"
      and "each_hit idx flt hits
             (recs(a := AList.update ''objectID'' (jget hit ''objectID'') (recs a)),
              if \<not> isEqual (JObj (omitUndefined (AList.update ''objectID'' (jget hit ''objectID'') (recs a)))) (JObj hit)
              then upd @ [a] else upd, del) = Inr r"
  | key where "getEntryKey hit = Inr key" and "idx key = None"
      and "each_hit idx flt hits (recs, upd, if flt then del @ [jget hit ''objectID''] else del) = Inr r"
proof (cases "getEntryKey hit")
  case (Inl e)
  with assms show ?thesis by simp
next
  case (Inr key)
  show ?thesis
  proof (cases "idx key")
    case None
    with Inr assms that(2) show ?thesis by simp
  next
    case (Some a)
    with Inr assms that(1) show ?thesis by (simp add: Let_def)
  qed
qed


lemma each_hit_keys:
  "each_hit idx flt hits (recs, upd, del) = Inr (recs', upd', del')
     \<Longrightarrow> getEntryKey (recs' b) = getEntryKey (recs b)"
proof (induction hits arbitrary: recs upd del)
  case Nil
  then show ?case by simp
next
  case (Cons hit hits)
  from Cons.prems show ?case
  proof (cases rule: each_hit_Cons)
    case (1 key a)
    from Cons.IH [OF 1(3)] show ?thesis
      by (simp add: getEntryKey_update_objectID)
  next
    case (2 key)
    from Cons.IH [OF 2(3)] show ?thesis .
  qed
qed

lemma each_hit_updated:
  "each_hit idx flt hits (recs, upd, del) = Inr (recs', upd', del')
     \<Longrightarrow> set upd' \<subseteq> set upd \<union> ran idx"
proof (induction hits arbitrary: recs upd del)
  case Nil
  then show ?case by simp
next
  case (Cons hit hits)
  from Cons.prems show ?case
  proof (cases rule: each_hit_Cons)
    case (1 key a)
    from 1(2) have "a \<in> ran idx" by (auto simp: ran_def)
    with Cons.IH [OF 1(3)] show ?thesis by (auto split: if_splits)
  next
    case (2 key)
    from Cons.IH [OF 2(3)] show ?thesis .
  qed
qed

lemma each_hit_no_filter:
  "each_hit idx False hits (recs, upd, del) = Inr (recs', upd', del') \<Longrightarrow> del' = del"
proof (induction hits arbitrary: recs upd del)
  case Nil
  then show ?case by simp
next
  case (Cons hit hits)
  from Cons.prems show ?case
  proof (cases rule: each_hit_Cons)
    case (1 key a)
    from Cons.IH [OF 1(3)] show ?thesis .
  next
    case (2 key)
    from Cons.IH [of recs upd del] 2(3) show ?thesis by simp
  qed
qed

lemma each_hit_deleted_mono:
  "each_hit idx flt hits (recs, upd, del) = Inr (recs', upd', del') \<Longrightarrow> set del \<subseteq> set del'"
proof (induction hits arbitrary: recs upd del)
  case Nil
  then show ?case by simp
next
  case (Cons hit hits)
  from Cons.prems show ?case
  proof (cases rule: each_hit_Cons)
    case (1 key a)
    from Cons.IH [OF 1(3)] show ?thesis .
  next
    case (2 key)
    from Cons.IH [OF 2(3)] show ?thesis by (auto split: if_splits)
  qed
qed

lemma each_hit_deleted:
  "each_hit idx True hits (recs, upd, del) = Inr (recs', upd', del')
     \<Longrightarrow> hit \<in> set hits \<Longrightarrow> getEntryKey hit = Inr k \<Longrightarrow> idx k = None
     \<Longrightarrow> jget hit ''objectID'' \<in> set del'"
proof (induction hits arbitrary: recs upd del)
  case Nil
  then show ?case by simp
next
  case (Cons h hits)
  from Cons.prems(1) show ?case
  proof (cases rule: each_hit_Cons)
    case (1 key a)
    with Cons.prems have "hit \<in> set hits" by auto
    from Cons.IH [OF 1(3) this Cons.prems(3,4)] show ?thesis .
  next
    case (2 key)
    show ?thesis
    proof (cases "hit = h")
      case True
      from each_hit_deleted_mono [OF 2(3)] True show ?thesis by simp
    next
      case False
      with Cons.prems have "hit \<in> set hits" by auto
      from Cons.IH [OF 2(3) this Cons.prems(3,4)] show ?thesis .
    qed
  qed
qed

lemma each_hit_deleted_from:
  "each_hit idx flt hits (recs, upd, del) = Inr (recs', upd', del') \<Longrightarrow> d \<in> set del'
     \<Longrightarrow> d \<in> set del \<or>
         (\<exists>h\<in>set hits. \<exists>k. getEntryKey h = Inr k \<and> idx k = None \<and> d = jget h ''objectID'')"
proof (induction hits arbitrary: recs upd del)
  case Nil
  then show ?case by simp
next
  case (Cons hit hits)
  from Cons.prems(1) show ?case
  proof (cases rule: each_hit_Cons)
    case (1 key a)
    from Cons.IH [OF 1(3) Cons.prems(2)] show ?thesis by auto
  next
    case (2 key)
    from Cons.IH [OF 2(3) Cons.prems(2)] 2(1,2) show ?thesis
      by (auto split: if_splits)
  qed
qed

lemma each_hit_unchanged:
  assumes "each_hit idx flt hits (recs, upd, del) = Inr (recs', upd', del')"
    and "idx k = Some a" and "\<forall>k'. idx k' = Some a \<longrightarrow> k' = k"
    and "\<forall>hit\<in>set hits. getEntryKey hit = Inr k \<longrightarrow>
           jtruthy (jget hit ''objectID'') \<and>
           isEqual (JObj (omitUndefined (AList.update ''objectID'' (jget hit ''objectID'') r0)))
             (JObj hit)"
    and "recs a = r0 \<or> attached r0 (recs a)"
    and "a \<notin> set upd"
  shows "a \<notin> set upd' \<and> (recs' a = r0 \<or> attached r0 (recs' a)) \<and>
         (attached r0 (recs a) \<or> (\<exists>hit\<in>set hits. getEntryKey hit = Inr k)
            \<longrightarrow> attached r0 (recs' a))"
  using assms
proof (induction hits arbitrary: recs upd del)
  case Nil
  from Nil.prems(1) have "recs' = recs" and "upd' = upd" by simp_all
  with Nil.prems(5,6) show ?case by simp
next
  case (Cons hit hits)
  have rest: "\<forall>h\<in>set hits. getEntryKey h = Inr k \<longrightarrow>
           jtruthy (jget h ''objectID'') \<and>
           isEqual (JObj (omitUndefined (AList.update ''objectID'' (jget h ''objectID'') r0)))
             (JObj h)"
    using Cons.prems(4) by simp
  from Cons.prems(1) show ?case
  proof (cases rule: each_hit_Cons)
    case (1 key b)
    define v where "v = jget hit ''objectID''"
    define same where
      "same = isEqual (JObj (omitUndefined (AList.update ''objectID'' v (recs b)))) (JObj hit)"
    define recs1 where "recs1 = recs(b := AList.update ''objectID'' v (recs b))"
    define upd1 where "upd1 = (if \<not> same then upd @ [b] else upd)"
    have run: "each_hit idx flt hits (recs1, upd1, del) = Inr (recs', upd', del')"
      using 1(3) by (simp only: recs1_def upd1_def same_def v_def)
    show ?thesis
    proof (cases "b = a")
      case True
      with 1(2) Cons.prems(3) have kk: "key = k" by blast
      from kk 1(1) Cons.prems(4) have tv: "jtruthy v"
        by (simp add: v_def)
      from kk 1(1) Cons.prems(4)
      have eq0: "isEqual (JObj (omitUndefined (AList.update ''objectID'' v r0))) (JObj hit)"
        by (simp only: v_def list.set_intros(1))
      have upd_eq: "AList.update ''objectID'' v (recs a) = AList.update ''objectID'' v r0"
        using Cons.prems(5) by (auto simp: attached_def)
      have att: "attached r0 (recs1 a)"
        unfolding attached_def recs1_def using True upd_eq tv by auto
      have "same" unfolding same_def using True upd_eq eq0 by simp
      then have nupd: "a \<notin> set upd1"
        unfolding upd1_def using Cons.prems(6) by simp
      have "recs1 a = r0 \<or> attached r0 (recs1 a)" using att by simp
      from Cons.IH [OF run Cons.prems(2,3) rest this nupd] att
      show ?thesis by blast
    next
      case False
      have same1: "recs1 a = recs a" unfolding recs1_def using False by simp
      have nupd: "a \<notin> set upd1" unfolding upd1_def using False Cons.prems(6) by simp
      have nk: "getEntryKey hit \<noteq> Inr k"
      proof
        assume "getEntryKey hit = Inr k"
        with 1(1) have "key = k" by simp
        with 1(2) Cons.prems(2) False show False by simp
      qed
      have "recs1 a = r0 \<or> attached r0 (recs1 a)" using Cons.prems(5) same1 by simp
      from Cons.IH [OF run Cons.prems(2,3) rest this nupd]
      have IH: "a \<notin> set upd' \<and> (recs' a = r0 \<or> attached r0 (recs' a)) \<and>
         (attached r0 (recs a) \<or> (\<exists>h\<in>set hits. getEntryKey h = Inr k)
            \<longrightarrow> attached r0 (recs' a))"
        by (simp add: same1)
      have "(\<exists>h\<in>set (hit # hits). getEntryKey h = Inr k) \<longrightarrow> (\<exists>h\<in>set hits. getEntryKey h = Inr k)"
        using nk by simp
      with IH show ?thesis by blast
    qed
  next
    case (2 key)
    have nk: "getEntryKey hit \<noteq> Inr k"
    proof
      assume "getEntryKey hit = Inr k"
      with 2(1) have "key = k" by simp
      with 2(2) Cons.prems(2) show False by simp
    qed
    from Cons.IH [OF 2(3) Cons.prems(2,3) rest Cons.prems(5,6)]
    have IH: "a \<notin> set upd' \<and> (recs' a = r0 \<or> attached r0 (recs' a)) \<and>
         (attached r0 (recs a) \<or> (\<exists>h\<in>set hits. getEntryKey h = Inr k)
            \<longrightarrow> attached r0 (recs' a))" .
    have "(\<exists>h\<in>set (hit # hits). getEntryKey h = Inr k) \<longrightarrow> (\<exists>h\<in>set hits. getEntryKey h = Inr k)"
      using nk by simp
    with IH show ?thesis by blast
  qed
qed

text \<open>
  Two digests, computed by the definition of SHA-256 above. The first is the test vector
  of FIPS 180-4 for the message \<open>"abc"\<close>.
\<close>

lemma digest_abc:
  "digest_hex (map of_char ''abc'')
     = ''ba7816bf8f01cfea414140de5dae2223b00361a396177a9cb410ff61f20015ad''"
  by code_simp

lemma digest_e2en:
  "digest_hex (map of_char ''e2en'')
     = ''55e63f897cf81f0177e7e53aedd1f8ca4cfe94ac1583bcb763cd2874ccd8a5c7''"
  by code_simp

lemma key_rec_ab_c:
  "getEntryKey rec_ab_c = Inr ''ba7816bf8f01cfea414140de5dae2223b00361a396177a9cb410ff61f20015ad''"
  using getEntryKey_strings [of rec_ab_c "''ab''" "''c''"] digest_abc
  by (simp add: rec_ab_c_def jget_def)

lemma key_hit_ab_c:
  "getEntryKey hit_ab_c = Inr ''ba7816bf8f01cfea414140de5dae2223b00361a396177a9cb410ff61f20015ad''"
  using getEntryKey_strings [of hit_ab_c "''ab''" "''c''"] digest_abc
  by (simp add: hit_ab_c_def jget_def)

lemma key_hit_ab_c_stale:
  "getEntryKey hit_ab_c_stale = Inr ''ba7816bf8f01cfea414140de5dae2223b00361a396177a9cb410ff61f20015ad''"
  using getEntryKey_strings [of hit_ab_c_stale "''ab''" "''c''"] digest_abc
  by (simp add: hit_ab_c_stale_def jget_def)

lemma key_hit_e2_en:
  "getEntryKey hit_e2_en = Inr ''55e63f897cf81f0177e7e53aedd1f8ca4cfe94ac1583bcb763cd2874ccd8a5c7''"
  using getEntryKey_strings [of hit_e2_en "''e2''" "''en''"] digest_e2en
  by (simp add: hit_e2_en_def jget_def)

lemma key_hit_post:
  "getEntryKey hit_post = Inr ''55e63f897cf81f0177e7e53aedd1f8ca4cfe94ac1583bcb763cd2874ccd8a5c7''"
  using getEntryKey_strings [of hit_post "''e2''" "''en''"] digest_e2en
  by (simp add: hit_post_def jget_def)

lemmas example_keys = key_rec_ab_c key_hit_ab_c key_hit_ab_c_stale key_hit_e2_en key_hit_post

lemma jget_examples:
  "jget hit_e2_en ''contentType'' = JStr ''page''"
  "jget hit_e2_en ''objectID'' = JStr ''o2''"
  "jget hit_post ''contentType'' = JStr ''post''"
  "jget hit_post ''objectID'' = JStr ''o9''"
  "jget hit_ab_c ''contentType'' = JStr ''page''"
  "jget hit_ab_c ''objectID'' = JStr ''o1''"
  "jget hit_ab_c_stale ''contentType'' = JStr ''page''"
  "jget hit_ab_c_stale ''objectID'' = JStr ''o3''"
  "jget rec_ab_c ''objectID'' = JUndefined"
  by (simp_all add: jget_def hit_e2_en_def hit_post_def hit_ab_c_def hit_ab_c_stale_def rec_ab_c_def)

lemma attach_examples:
  "isEqual (JObj (omitUndefined (AList.update ''objectID'' (JStr ''o1'') rec_ab_c))) (JObj hit_ab_c)"
  "\<not> isEqual (JObj (omitUndefined (AList.update ''objectID'' (JStr ''o3'') rec_ab_c)))
       (JObj hit_ab_c_stale)"
  "jget (AList.update ''objectID'' v rec_ab_c) ''objectID'' = v"
  by (simp_all add: omitUndefined_def rec_ab_c_def hit_ab_c_def hit_ab_c_stale_def jget_def)

lemma run_other_type:
  "getElements one_record [0] (Some ''page'') [hit_post]
     = Inr (one_record, \<lparr>created = [0], updated = [], deleted = []\<rparr>)"
  by (simp add: getElements_def diff_hits_def filter_hits_def supplied_def one_record_def
      example_keys jget_examples)

lemma run_filtered:
  "getElements one_record [0] (Some ''page'') [hit_e2_en]
     = Inr (one_record, \<lparr>created = [0], updated = [], deleted = [JStr ''o2'']\<rparr>)"
  by (simp add: getElements_def diff_hits_def filter_hits_def supplied_def one_record_def
      example_keys jget_examples)

lemma run_unfiltered:
  "getElements one_record [0] None [hit_e2_en]
     = Inr (one_record, \<lparr>created = [0], updated = [], deleted = []\<rparr>)"
  by (simp add: getElements_def diff_hits_def filter_hits_def supplied_def one_record_def
      example_keys jget_examples)

lemma run_unchanged:
  "getElements one_record [0] None [hit_e2_en, hit_ab_c]
     = Inr (one_record(0 := AList.update ''objectID'' (JStr ''o1'') rec_ab_c),
            \<lparr>created = [], updated = [], deleted = []\<rparr>)"
  by (simp add: getElements_def diff_hits_def filter_hits_def supplied_def one_record_def
      example_keys jget_examples attach_examples Let_def del: isEqual.simps)

lemma run_duplicate_hit:
  "getElements one_record [0] None [hit_ab_c, hit_ab_c_stale]
     = Inr (one_record(0 := AList.update ''objectID'' (JStr ''o3'') rec_ab_c),
            \<lparr>created = [], updated = [0], deleted = []\<rparr>)"
  by (simp add: getElements_def diff_hits_def filter_hits_def supplied_def one_record_def
      example_keys jget_examples attach_examples Let_def del: isEqual.simps)

lemma getElements_Inr:
  assumes "getElements recs data contentType hits = Inr (recs', res)"
  obtains idx upd del where "keyBy recs data Map.empty = Inr idx"
    and "each_hit idx (supplied contentType) (filter_hits contentType hits) (recs, [], [])
           = Inr (recs', upd, del)"
    and "res = \<lparr>created = filter (\<lambda>a. \<not> jtruthy (jget (recs' a) ''objectID'')) data,
                 updated = upd, deleted = del\<rparr>"
proof (cases "keyBy recs data Map.empty")
  case (Inl e)
  with assms show ?thesis by (simp add: getElements_def)
next
  case (Inr idx)
  show ?thesis
  proof (cases "each_hit idx (supplied contentType) (filter_hits contentType hits) (recs, [], [])")
    case (Inl e)
    with Inr assms show ?thesis by (simp add: getElements_def diff_hits_def)
  next
    case run: (Inr r)
    obtain recs1 upd del where r: "r = (recs1, upd, del)" by (cases r)
    from assms Inr run r have "recs1 = recs'"
      and "res = \<lparr>created = filter (\<lambda>a. \<not> jtruthy (jget (recs' a) ''objectID'')) data,
                 updated = upd, deleted = del\<rparr>"
      by (auto simp: getElements_def diff_hits_def)
    with Inr run r that show ?thesis by blast
  qed
qed

text \<open>
  C5, amended. Let a hit of the snapshot have a fingerprint that no incoming record has.
  When a non-empty content-type filter is supplied and the hit's \<^verbatim>\<open>contentType\<close>
  is the filter, its \<^verbatim>\<open>objectID\<close> is in \<open>deleted\<close>. When no filter is supplied,
  \<open>deleted\<close> is empty, and \<open>created\<close> and \<open>updated\<close> hold incoming records only, none
  of which has the hit's fingerprint.
\<close>

theorem diff_unmatched_hit:
  assumes run: "getElements recs data contentType hits = Inr (recs', res)"
    and hit: "hit \<in> set hits" and key: "getEntryKey hit = Inr k"
    and nomatch: "\<forall>a\<in>set data. getEntryKey (recs a) \<noteq> Inr k"
  shows "(\<forall>ct. contentType = Some ct \<and> ct \<noteq> [] \<and> jget hit ''contentType'' = JStr ct
            \<longrightarrow> jget hit ''objectID'' \<in> set (deleted res))
       \<and> (\<not> supplied contentType
            \<longrightarrow> deleted res = []
              \<and> (\<forall>a\<in>set (created res) \<union> set (updated res).
                    a \<in> set data \<and> getEntryKey (recs' a) \<noteq> Inr k))"
proof -
  from run obtain idx upd del where
    idx: "keyBy recs data Map.empty = Inr idx"
    and loop: "each_hit idx (supplied contentType) (filter_hits contentType hits) (recs, [], [])
           = Inr (recs', upd, del)"
    and res: "res = \<lparr>created = filter (\<lambda>a. \<not> jtruthy (jget (recs' a) ''objectID'')) data,
                 updated = upd, deleted = del\<rparr>"
    by (rule getElements_Inr)
  have none: "idx k = None"
    using keyBy_other [OF idx nomatch] by simp
  have part1: "jget hit ''objectID'' \<in> set (deleted res)"
    if ct: "contentType = Some ct" "ct \<noteq> []" "jget hit ''contentType'' = JStr ct" for ct
  proof -
    have sup: "supplied contentType" using ct by (simp add: supplied_def)
    have "hit \<in> set (filter_hits contentType hits)"
      using hit ct sup by (simp add: filter_hits_def)
    from each_hit_deleted [OF loop [unfolded sup [THEN eqTrueI]] this key none]
    show ?thesis by (simp add: res)
  qed
  have part2: "deleted res = [] \<and> (\<forall>a\<in>set (created res) \<union> set (updated res).
                    a \<in> set data \<and> getEntryKey (recs' a) \<noteq> Inr k)"
    if nosup: "\<not> supplied contentType"
  proof -
    have "del = []"
      using each_hit_no_filter [of idx _ recs "[]" "[]" recs' upd del] loop nosup by simp
    moreover have "a \<in> set data \<and> getEntryKey (recs' a) \<noteq> Inr k"
      if a: "a \<in> set (created res) \<union> set (updated res)" for a
    proof -
      have "a \<in> set data"
      proof (cases "a \<in> set (created res)")
        case True
        then show ?thesis by (simp add: res)
      next
        case False
        with a have "a \<in> set upd" by (auto simp: res)
        with each_hit_updated [OF loop] have "a \<in> ran idx" by auto
        then obtain k' where "idx k' = Some a" by (auto simp: ran_def)
        from keyBy_Some [OF idx this] show ?thesis by simp
      qed
      moreover have "getEntryKey (recs' a) = getEntryKey (recs a)"
        by (rule each_hit_keys [OF loop])
      ultimately show ?thesis using nomatch by simp
    qed
    ultimately show ?thesis by (auto simp: res)
  qed
  from part1 part2 show ?thesis by blast
qed

text \<open>
  The hypotheses of the theorem hold of the hit \<open>hit_e2_en\<close> against the record
  \<open>rec_ab_c\<close>, with the filter \<^verbatim>\<open>page\<close> and without a filter.
\<close>

theorem diff_unmatched_hit_witness:
  "(\<exists>recs' res. getElements one_record [0] (Some ''page'') [hit_e2_en] = Inr (recs', res)
        \<and> JStr ''o2'' \<in> set (deleted res))
   \<and> (\<exists>recs' res. getElements one_record [0] None [hit_e2_en] = Inr (recs', res)
        \<and> deleted res = [] \<and> created res = [0] \<and> updated res = [])"
proof -
  have nomatch: "\<forall>a\<in>set [0]. getEntryKey (one_record a)
      \<noteq> Inr ''55e63f897cf81f0177e7e53aedd1f8ca4cfe94ac1583bcb763cd2874ccd8a5c7''"
    by (simp add: one_record_def key_rec_ab_c)
  have hit: "hit_e2_en \<in> set [hit_e2_en]" by simp
  note t1 = diff_unmatched_hit [OF run_filtered hit key_hit_e2_en nomatch]
  note t2 = diff_unmatched_hit [OF run_unfiltered hit key_hit_e2_en nomatch]
  from t1 have "JStr ''o2'' \<in> set (deleted \<lparr>created = [0], updated = [], deleted = [JStr ''o2'']\<rparr>)"
    by (simp add: jget_examples)
  moreover from t2 have "deleted \<lparr>created = [0::nat], updated = [], deleted = ([]::jval list)\<rparr> = []"
    by (simp add: supplied_def)
  ultimately show ?thesis
    using run_filtered run_unfiltered by simp
qed

text \<open>
  C5, as stated, fails: with the filter \<^verbatim>\<open>page\<close>, a hit of content type
  \<^verbatim>\<open>post\<close> whose fingerprint matches no incoming record is dropped by
  \<^verbatim>\<open>_.filter\<close> before the loop, and its \<^verbatim>\<open>objectID\<close> is not in \<open>deleted\<close>.
\<close>

theorem diff_other_type_hit_kept:
  "getElements one_record [0] (Some ''page'') [hit_post]
     = Inr (one_record, \<lparr>created = [0], updated = [], deleted = []\<rparr>)
   \<and> getEntryKey hit_post \<noteq> getEntryKey (one_record 0)
   \<and> jget hit_post ''objectID'' = JStr ''o9''"
proof (intro conjI)
  show "getElements one_record [0] (Some ''page'') [hit_post]
     = Inr (one_record, \<lparr>created = [0], updated = [], deleted = []\<rparr>)"
    by (rule run_other_type)
  show "getEntryKey hit_post \<noteq> getEntryKey (one_record 0)"
    by (simp add: one_record_def example_keys)
  show "jget hit_post ''objectID'' = JStr ''o9''"
    by (simp add: jget_examples)
qed

text \<open>
  C6, amended. Let an incoming record be the only incoming object with its fingerprint,
  let at least one hit of the (filtered) snapshot have that fingerprint, and let every
  such hit have a truthy \<^verbatim>\<open>objectID\<close> and be equal to the record once that
  \<^verbatim>\<open>objectID\<close> is attached and the undefined fields are removed. Then the record is
  neither in \<open>created\<close> nor in \<open>updated\<close>, and \<open>deleted\<close> holds only identifiers of
  hits with another fingerprint.
\<close>

theorem diff_unchanged_record:
  assumes run: "getElements recs data contentType hits = Inr (recs', res)"
    and a: "a \<in> set data" and key: "getEntryKey (recs a) = Inr k"
    and only: "\<forall>b\<in>set data. getEntryKey (recs b) = Inr k \<longrightarrow> b = a"
    and some: "\<exists>hit\<in>set (filter_hits contentType hits). getEntryKey hit = Inr k"
    and equal: "\<forall>hit\<in>set (filter_hits contentType hits). getEntryKey hit = Inr k \<longrightarrow>
           jtruthy (jget hit ''objectID'') \<and>
           isEqual (JObj (omitUndefined (AList.update ''objectID'' (jget hit ''objectID'') (recs a))))
             (JObj hit)"
  shows "a \<notin> set (created res) \<and> a \<notin> set (updated res)
       \<and> (\<forall>d\<in>set (deleted res). \<exists>h\<in>set hits. d = jget h ''objectID'' \<and> getEntryKey h \<noteq> Inr k)"
proof -
  from run obtain idx upd del where
    idx: "keyBy recs data Map.empty = Inr idx"
    and loop: "each_hit idx (supplied contentType) (filter_hits contentType hits) (recs, [], [])
           = Inr (recs', upd, del)"
    and res: "res = \<lparr>created = filter (\<lambda>a. \<not> jtruthy (jget (recs' a) ''objectID'')) data,
                 updated = upd, deleted = del\<rparr>"
    by (rule getElements_Inr)
  have ia: "idx k = Some a" by (rule keyBy_only [OF idx a key only])
  have uniq: "\<forall>k'. idx k' = Some a \<longrightarrow> k' = k"
  proof (intro allI impI)
    fix k' assume "idx k' = Some a"
    from keyBy_Some [OF idx this] key show "k' = k" by simp
  qed
  from each_hit_unchanged [OF loop ia uniq equal]
  have inv: "a \<notin> set upd" "attached (recs a) (recs' a)"
    using some by auto
  from inv(2) have "jtruthy (jget (recs' a) ''objectID'')"
    by (auto simp: attached_def jget_update_same)
  then have "a \<notin> set (created res)" by (simp add: res)
  moreover have "a \<notin> set (updated res)" using inv(1) by (simp add: res)
  moreover have "\<exists>h\<in>set hits. d = jget h ''objectID'' \<and> getEntryKey h \<noteq> Inr k"
    if "d \<in> set (deleted res)" for d
  proof -
    from that have "d \<in> set del" by (simp add: res)
    from each_hit_deleted_from [OF loop this] obtain h k' where
      h: "h \<in> set (filter_hits contentType hits)" "getEntryKey h = Inr k'" "idx k' = None"
         "d = jget h ''objectID''"
      by auto
    from h(1) have "h \<in> set hits" by (auto simp: filter_hits_def split: if_splits)
    moreover from h(2,3) ia have "getEntryKey h \<noteq> Inr k" by auto
    ultimately show ?thesis using h(4) by blast
  qed
  ultimately show ?thesis by blast
qed

text \<open>
  The hypotheses of the theorem hold of the record \<open>rec_ab_c\<close> against the hits
  \<open>hit_e2_en\<close> and \<open>hit_ab_c\<close>.
\<close>

theorem diff_unchanged_record_witness:
  "\<exists>recs' res. getElements one_record [0] None [hit_e2_en, hit_ab_c] = Inr (recs', res)
      \<and> 0 \<notin> set (created res) \<and> 0 \<notin> set (updated res) \<and> deleted res = []"
proof -
  have a: "(0::nat) \<in> set [0]" by simp
  have key: "getEntryKey (one_record 0)
      = Inr ''ba7816bf8f01cfea414140de5dae2223b00361a396177a9cb410ff61f20015ad''"
    by (simp add: one_record_def key_rec_ab_c)
  have only: "\<forall>b\<in>set [0::nat]. getEntryKey (one_record b)
      = Inr ''ba7816bf8f01cfea414140de5dae2223b00361a396177a9cb410ff61f20015ad'' \<longrightarrow> b = 0"
    by simp
  have some: "\<exists>hit\<in>set (filter_hits None [hit_e2_en, hit_ab_c]). getEntryKey hit
      = Inr ''ba7816bf8f01cfea414140de5dae2223b00361a396177a9cb410ff61f20015ad''"
    by (simp add: filter_hits_def supplied_def example_keys)
  have equal: "\<forall>hit\<in>set (filter_hits None [hit_e2_en, hit_ab_c]). getEntryKey hit
      = Inr ''ba7816bf8f01cfea414140de5dae2223b00361a396177a9cb410ff61f20015ad'' \<longrightarrow>
           jtruthy (jget hit ''objectID'') \<and>
           isEqual (JObj (omitUndefined (AList.update ''objectID'' (jget hit ''objectID'')
              (one_record 0)))) (JObj hit)"
    by (simp add: filter_hits_def supplied_def example_keys jget_examples attach_examples
        one_record_def del: isEqual.simps)
  from diff_unchanged_record [OF run_unchanged a key only some equal]
  have "0 \<notin> set (created \<lparr>created = ([]::nat list), updated = ([]::nat list), deleted = ([]::jval list)\<rparr>)"
    by simp
  then show ?thesis using run_unchanged by simp
qed

text \<open>
  C6, as stated, fails: the record has the fingerprint of the hit \<open>hit_ab_c\<close> and is
  equal to it once its \<^verbatim>\<open>objectID\<close> is attached, but the snapshot holds a second
  hit with the same fingerprint and another title, and the record ends in \<open>updated\<close>.
\<close>

theorem diff_duplicate_hit_updates:
  "getElements one_record [0] None [hit_ab_c, hit_ab_c_stale]
     = Inr (one_record(0 := AList.update ''objectID'' (JStr ''o3'') rec_ab_c),
            \<lparr>created = [], updated = [0], deleted = []\<rparr>)
   \<and> getEntryKey (one_record 0) = getEntryKey hit_ab_c
   \<and> isEqual (JObj (omitUndefined (AList.update ''objectID'' (jget hit_ab_c ''objectID'')
              (one_record 0)))) (JObj hit_ab_c)"
proof (intro conjI)
  show "getElements one_record [0] None [hit_ab_c, hit_ab_c_stale]
     = Inr (one_record(0 := AList.update ''objectID'' (JStr ''o3'') rec_ab_c),
            \<lparr>created = [], updated = [0], deleted = []\<rparr>)"
    by (rule run_duplicate_hit)
  show "getEntryKey (one_record 0) = getEntryKey hit_ab_c"
    by (simp add: one_record_def example_keys)
  show "isEqual (JObj (omitUndefined (AList.update ''objectID'' (jget hit_ab_c ''objectID'')
              (one_record 0)))) (JObj hit_ab_c)"
    by (simp add: one_record_def jget_examples attach_examples del: isEqual.simps)
qed

subsection \<open>The orchestrator\<close>

lemma keyBy_ok:
  "\<forall>a\<in>set data. \<exists>k. getEntryKey (recs a) = Inr k \<Longrightarrow> \<exists>idx. keyBy recs data idx0 = Inr idx"
proof (induction data arbitrary: idx0)
  case Nil
  then show ?case by simp
next
  case (Cons a data)
  then obtain k where "getEntryKey (recs a) = Inr k" by auto
  moreover from Cons have "\<exists>idx. keyBy recs data (idx0(k \<mapsto> a)) = Inr idx" by simp
  ultimately show ?case by simp
qed

lemma fetches_bulk:
  "op \<noteq> BrowseAll \<Longrightarrow> fetches (fst (bulk srv w op)) = fetches w
     \<and> heap_recs (fst (bulk srv w op)) = heap_recs w"
  by (simp add: bulk_def fetches_def Let_def)

lemma fetches_indexObjects:
  "fetches (fst (indexObjects srv w n e d)) = fetches w
     \<and> heap_recs (fst (indexObjects srv w n e d)) = heap_recs w"
proof -
  obtain w1 r1 where s1: "addObjects srv w (map (heap_recs w) n) = (w1, r1)" by fastforce
  obtain w2 r2 where s2: "updateObjects srv w1 (map (heap_recs w1) e) = (w2, r2)" by fastforce
  obtain w3 r3 where s3: "deleteObjects srv w2 d = (w3, r3)" by fastforce
  have f1: "fetches w1 = fetches w \<and> heap_recs w1 = heap_recs w"
    using s1 fetches_bulk [of "AddObjects (map (heap_recs w) n)" srv w]
    by (auto simp: addObjects_def split: if_splits)
  have f2: "fetches w2 = fetches w1 \<and> heap_recs w2 = heap_recs w1"
    using s2 fetches_bulk [of "SaveObjects (map (heap_recs w1) e)" srv w1]
    by (auto simp: updateObjects_def split: if_splits)
  have f3: "fetches w3 = fetches w2 \<and> heap_recs w3 = heap_recs w2"
    using s3 fetches_bulk [of "DeleteObjects d" srv w2]
    by (auto simp: deleteObjects_def split: if_splits)
  have "fst (indexObjects srv w n e d) = w3"
    by (simp add: indexObjects_def s1 s2 s3)
  with f1 f2 f3 show ?thesis by simp
qed

lemma diff_hits_keys:
  "diff_hits recs data idx ct hits = Inr (recs', res)
     \<Longrightarrow> getEntryKey (recs' b) = getEntryKey (recs b)"
  by (auto simp: diff_hits_def split: sum.splits dest: each_hit_keys)

lemma getElementsPromise_fresh:
  assumes fresh: "cachedResults alg = None"
    and idx: "keyBy (heap_recs w) data Map.empty = Inr idx"
  shows "\<exists>alg' w' r. getElementsPromise srv alg w data ct = (alg', w', r)
           \<and> fetches w' = Suc (fetches w) \<and> (\<forall>e. r \<noteq> Threw e)
           \<and> (\<forall>b. getEntryKey (heap_recs w' b) = getEntryKey (heap_recs w b))"
proof -
  obtain w1 p where b: "browseAll srv w = (w1, p)" by fastforce
  then have w1: "w1 = w\<lparr>netlog := netlog w @ [BrowseAll]\<rparr>"
    by (auto simp: browseAll_def Let_def)
  then have f1: "fetches w1 = Suc (fetches w)" "heap_recs w1 = heap_recs w"
    by (simp_all add: fetches_def)
  show ?thesis
  proof (cases p)
    case (Inl e)
    with fresh idx b f1 show ?thesis
      by (simp add: getElementsPromise_def)
  next
    case (Inr hits)
    show ?thesis
    proof (cases "diff_hits (heap_recs w1) data idx ct hits")
      case (Inl e)
      with fresh idx b f1 Inr show ?thesis
        by (simp add: getElementsPromise_def)
    next
      case d: (Inr r)
      obtain recs' res where r: "r = (recs', res)" by (cases r)
      from diff_hits_keys [OF d [unfolded r]] f1(2)
      have "\<forall>b. getEntryKey (recs' b) = getEntryKey (heap_recs w b)" by simp
      with fresh idx b f1 Inr d r show ?thesis
        by (simp add: getElementsPromise_def fetches_def)
    qed
  qed
qed

lemma singleCallback_fetches:
  assumes "\<forall>a\<in>set content. \<exists>k. getEntryKey (heap_recs w a) = Inr k"
  shows "\<exists>w'. singleCallback config srv None index w type content = (w', None)
           \<and> fetches w' = Suc (fetches w)
           \<and> (\<forall>b. getEntryKey (heap_recs w' b) = getEntryKey (heap_recs w b))"
proof -
  from keyBy_ok [OF assms] obtain idx where
    idx: "keyBy (heap_recs w) content Map.empty = Inr idx" by blast
  have fresh: "cachedResults (new_Algolia config index) = None"
    by (simp add: new_Algolia_def)
  from getElementsPromise_fresh [OF fresh idx, of srv None] obtain alg' w1 r where
    g: "getElementsPromise srv (new_Algolia config index) w content None = (alg', w1, r)"
    and f: "fetches w1 = Suc (fetches w)" and nt: "\<forall>e. r \<noteq> Threw e"
    and ks: "\<forall>b. getEntryKey (heap_recs w1 b) = getEntryKey (heap_recs w b)"
    by blast
  show ?thesis
  proof (cases r)
    case (Threw e)
    with nt show ?thesis by simp
  next
    case (Rejected e)
    with g f ks show ?thesis
      by (simp add: singleCallback_def indexData_def fetches_def)
  next
    case (Resolved entries)
    obtain w2 r2 where io:
      "indexObjects srv w1 (created entries) (updated entries) (deleted entries) = (w2, r2)"
      by fastforce
    with fetches_indexObjects [of srv w1 "created entries" "updated entries" "deleted entries"]
    have f2: "fetches w2 = fetches w1" "heap_recs w2 = heap_recs w1" by simp_all
    with g f ks Resolved io show ?thesis
      by (cases r2) (simp_all add: singleCallback_def indexData_def fetches_def)
  qed
qed

lemma each_content_fetches:
  "\<forall>entries\<in>snd ` set content. \<forall>a\<in>set entries. \<exists>k. getEntryKey (heap_recs w a) = Inr k
     \<Longrightarrow> \<exists>w'. each_content config srv None index content w = (w', None)
           \<and> fetches w' = fetches w + length content"
proof (induction content arbitrary: w)
  case Nil
  then show ?case by simp
next
  case (Cons c content)
  obtain type entries where c: "c = (type, entries)" by (cases c)
  from Cons.prems c have "\<forall>a\<in>set entries. \<exists>k. getEntryKey (heap_recs w a) = Inr k" by simp
  from singleCallback_fetches [OF this, of config srv index type] obtain w1 where
    s: "singleCallback config srv None index w type entries = (w1, None)"
    and f: "fetches w1 = Suc (fetches w)"
    and ks: "\<forall>b. getEntryKey (heap_recs w1 b) = getEntryKey (heap_recs w b)"
    by blast
  from Cons.prems ks
  have "\<forall>entries\<in>snd ` set content. \<forall>a\<in>set entries. \<exists>k. getEntryKey (heap_recs w1 a) = Inr k"
    by simp
  from Cons.IH [OF this] obtain w' where
    "each_content config srv None index content w1 = (w', None)"
    "fetches w' = fetches w1 + length content" by blast
  with s f c show ?case by simp
qed

text \<open>
  In general, a run without observer over records that all have a fingerprint fetches the
  snapshot once per content type.
\<close>

lemma sync_fetches:
  assumes "\<forall>entries\<in>snd ` set content. \<forall>a\<in>set entries. \<exists>k. getEntryKey (heap_recs w a) = Inr k"
  shows "fetches (sync config srv None index content w) = fetches w + length content"
proof -
  from each_content_fetches [OF assms] obtain w' where
    "each_content config srv None index content w = (w', None)"
    "fetches w' = fetches w + length content" by blast
  then show ?thesis by (simp add: sync_def)
qed

text \<open>
  C2 fails on the code: \<^verbatim>\<open>singleCallback\<close> builds a new \<^verbatim>\<open>Algolia\<close> for every
  content type, whose \<^verbatim>\<open>cachedResults\<close> is null, so a run over two content types
  fetches the snapshot twice, whatever the index answers.
\<close>

theorem sync_fetches_once_per_type:
  "fetches (sync config srv None index [(''page'', [0]), (''post'', [1])]
      \<lparr>heap_recs = two_records, netlog = [], console = []\<rparr>) = 2"
proof -
  have "\<forall>entries\<in>snd ` set [(''page'', [0::nat]), (''post'', [1])]. \<forall>a\<in>set entries.
          \<exists>k. getEntryKey (heap_recs \<lparr>heap_recs = two_records, netlog = [], console = []\<rparr> a) = Inr k"
    by (simp add: two_records_def getEntryKey_def jget_def)
  from sync_fetches [OF this] show ?thesis by (simp add: fetches_def)
qed

section \<open>Properties of the locale flattener\<close>

subsection \<open>The visited check of \<^verbatim>\<open>_cleanMore\<close>\<close>

text \<open>
  \<^verbatim>\<open>_cleanMore\<close> returns at the visited check unless the entry is the first element
  of the stack.
\<close>

lemma cleanMore_not_head:
  "indexOf (case cleanStack of None \<Rightarrow> [] | Some s \<Rightarrow> s) entry \<noteq> 0
     \<Longrightarrow> cleanMore (Suc n) locales h entry locale cleanStack = returns (h @ [empty_object], entry)"
  by (simp del: cleanMore.simps add: cleanMore.simps(2) alloc_def split_def)

text \<open>
  C10: called with no visited stack, as \<^verbatim>\<open>_getLocalizedEntries\<close> calls it
  (\<open>each_locale\<close>), or with an empty one, \<^verbatim>\<open>_cleanMore\<close> returns its argument at the
  visited check: \<^verbatim>\<open>_.indexOf\<close> is -1, which is truthy. No object of the heap is
  changed; the heap only gains the empty \<^verbatim>\<open>newEntry\<close> created before the check. The
  loop over the keys, with the stripping of nested entries and the merging of
  \<^verbatim>\<open>elements\<close>, is not entered.
\<close>

theorem cleanMore_top_level_identity:
  "cleanMore (Suc n) locales h entry locale None = returns (h @ [empty_object], entry)
   \<and> cleanMore (Suc n) locales h entry locale (Some []) = returns (h @ [empty_object], entry)"
  using cleanMore_not_head [where cleanStack = None]
    cleanMore_not_head [where cleanStack = "Some []"]
  by (simp del: cleanMore.simps)

subsection \<open>Locale resolution\<close>

lemma first_truthy_Cons:
  "first_truthy (v # vs) = (if truthy v then v else first_truthy vs)"
  by (simp add: first_truthy_def)

lemma getLocaleString_each_Ref:
  "getLocaleString_each h (Ref f) codes acc =
     Inr (if truthy acc then acc
          else if list_ex truthy (map (\<lambda>c. own_prop (props (deref h f)) (Name c)) codes)
          then first_truthy (map (\<lambda>c. own_prop (props (deref h f)) (Name c)) codes)
          else acc)"
proof (induction codes arbitrary: acc)
  case Nil
  then show ?case by simp
next
  case (Cons c codes)
  then show ?case by (simp add: bindE_def first_truthy_Cons)
qed

lemma first_truthy_none:
  "\<not> list_ex truthy vs \<Longrightarrow> first_truthy vs = Undefined"
  by (induction vs) (simp_all add: first_truthy_def)

lemma getLocaleString_Ref:
  "getLocaleString h (Ref f) locale =
     Inr (first_truthy (map (\<lambda>c. own_prop (props (deref h f)) (Name c)) locale))"
  by (simp add: getLocaleString_def getLocaleString_each_Ref first_truthy_none)

lemma own_prop_ins_prop:
  "own_prop (ins_prop k x ps) k' = (if k' = k then x else own_prop ps k')"
  by (induction ps) (auto simp: own_prop_def)

lemma deref_append:
  "a < length h \<Longrightarrow> deref (h @ [x]) a = h ! a"
  by (simp add: deref_def nth_append)

lemma deref_last:
  "deref (h @ [x]) (length h) = x"
  by (simp add: deref_def)

lemma set_props_last:
  "set_props (h @ [x]) (length h) ps = h @ [x\<lparr>props := ps\<rparr>]"
  by (simp add: set_props_def deref_last)

lemma read_only_plain:
  "primitive ob = Undefined \<Longrightarrow> \<not> read_only ob k"
  by (cases k) simp_all

lemma read_only_empty_object:
  "\<not> read_only (empty_object\<lparr>props := P\<rparr>) k"
  by (rule read_only_plain) (simp add: empty_object_def)

lemma for_in_fields_loop:
  assumes "fs < length h"
    and "\<forall>k\<in>set ks. k \<in> fst ` set (props (h ! fs))"
    and "\<forall>k\<in>set ks. \<forall>P. getLocaleString (h @ [empty_object\<lparr>props := P\<rparr>])
            (own_prop (props (h ! fs)) k) codes = Inr (r k)"
  shows "for_in
           (\<lambda>h1 key.
              Some (bindE (get_prop h1 (Ref fs) key)
                (\<lambda>field. bindE (getLocaleString h1 field codes)
                   (\<lambda>v. put_prop h1 (Ref (length h)) key v))))
           (Ref fs) ks (h @ [empty_object\<lparr>props := P\<rparr>])
         = returns (h @ [empty_object\<lparr>props := foldl (\<lambda>P k. ins_prop k (r k) P) P ks\<rparr>])"
  using assms(2,3)
proof (induction ks arbitrary: P)
  case Nil
  then show ?case by simp
next
  case (Cons k ks)
  have present: "has_key (h @ [empty_object\<lparr>props := P\<rparr>]) (Ref fs) k"
    using Cons.prems(1) assms(1) by (simp add: has_key_def deref_append)
  have step: "bindE (get_prop (h @ [empty_object\<lparr>props := P\<rparr>]) (Ref fs) k)
                (\<lambda>field. bindE (getLocaleString (h @ [empty_object\<lparr>props := P\<rparr>]) field codes)
                   (\<lambda>v. put_prop (h @ [empty_object\<lparr>props := P\<rparr>]) (Ref (length h)) k v))
              = Inr (h @ [empty_object\<lparr>props := ins_prop k (r k) P\<rparr>])"
    using Cons.prems(2) assms(1)
    by (simp add: bindE_def deref_append deref_last set_props_last read_only_empty_object)
  have "for_in
           (\<lambda>h1 key.
              Some (bindE (get_prop h1 (Ref fs) key)
                (\<lambda>field. bindE (getLocaleString h1 field codes)
                   (\<lambda>v. put_prop h1 (Ref (length h)) key v))))
           (Ref fs) ks (h @ [empty_object\<lparr>props := ins_prop k (r k) P\<rparr>])
         = returns (h @ [empty_object\<lparr>props := foldl (\<lambda>P k. ins_prop k (r k) P) (ins_prop k (r k) P) ks\<rparr>])"
    using Cons.prems by (intro Cons.IH) simp_all
  with present step show ?case
    by (simp add: bindR_def)
qed

lemma own_prop_foldl_ins:
  "own_prop (foldl (\<lambda>P k. ins_prop k (r k) P) P ks) k
     = (if k \<in> set ks then r k else own_prop P k)"
  by (induction ks arbitrary: P) (simp_all add: own_prop_ins_prop)

text \<open>
  C4, amended: for every field mapping and every fallback group, \<^verbatim>\<open>_getLocaleString\<close>
  returns the value of the first locale code of the group whose value in the mapping is
  truthy, and \<^verbatim>\<open>undefined\<close> when no code of the group has a truthy value. And
  \<^verbatim>\<open>_getFieldsForLocale\<close>, on a field set whose fields are mappings of the heap,
  returns a new object that holds, for each field on its own, the value so resolved from
  that field's mapping, and the first code of the group as \<^verbatim>\<open>locale\<close>.
\<close>

theorem resolution_first_truthy:
  assumes fs: "fs < length h"
    and maps: "\<forall>p\<in>set (props (h ! fs)). \<exists>g. snd p = Ref g \<and> g < length h"
  shows "getLocaleString h (Ref f) codes
           = Inr (first_truthy (map (\<lambda>c. own_prop (props (deref h f)) (Name c)) codes))
       \<and> (\<exists>h'. getFieldsForLocale h (Ref fs) codes = returns (h', Ref (length h))
             \<and> get_prop h' (Ref (length h)) (Name ''locale'') = Inr (first_code codes)
             \<and> (\<forall>key\<in>set (keys_in h (Ref fs)). key \<noteq> Name ''locale'' \<longrightarrow>
                   (\<exists>g. get_prop h (Ref fs) key = Inr (Ref g)
                      \<and> get_prop h' (Ref (length h)) key
                          = Inr (first_truthy
                                   (map (\<lambda>c. own_prop (props (deref h g)) (Name c)) codes)))))"
proof
  show "getLocaleString h (Ref f) codes
           = Inr (first_truthy (map (\<lambda>c. own_prop (props (deref h f)) (Name c)) codes))"
    by (rule getLocaleString_Ref)
next
  define F where "F = props (h ! fs)"
  define r where
    "r = (\<lambda>k. first_truthy (map (\<lambda>c. own_prop
             (props (deref h (case own_prop F k of Ref g \<Rightarrow> g | _ \<Rightarrow> 0))) (Name c)) codes))"
  define P' where "P' = foldl (\<lambda>P k. ins_prop k (r k) P) [] (map fst F)"
  define h' where
    "h' = h @ [empty_object\<lparr>props := ins_prop (Name ''locale'') (first_code codes) P'\<rparr>]"
  have field: "\<exists>g. own_prop F k = Ref g \<and> g < length h" if "k \<in> fst ` set F" for k
  proof -
    from that obtain v where "map_of F k = Some v"
      by (metis map_of_eq_None_iff not_Some_eq)
    moreover from this have "(k, v) \<in> set F" by (rule map_of_SomeD)
    ultimately show ?thesis using maps by (auto simp: F_def own_prop_def)
  qed
  have resolve: "\<forall>k\<in>set (map fst F). \<forall>P. getLocaleString (h @ [empty_object\<lparr>props := P\<rparr>])
            (own_prop (props (h ! fs)) k) codes = Inr (r k)"
  proof (intro ballI allI)
    fix k P assume "k \<in> set (map fst F)"
    then obtain g where g: "own_prop F k = Ref g" "g < length h" using field by auto
    have "deref (h @ [empty_object\<lparr>props := P\<rparr>]) g = deref h g"
      using g(2) by (simp add: deref_def nth_append)
    with g show "getLocaleString (h @ [empty_object\<lparr>props := P\<rparr>])
            (own_prop (props (h ! fs)) k) codes = Inr (r k)"
      by (simp add: getLocaleString_Ref r_def F_def)
  qed
  have keys: "\<forall>k\<in>set (map fst F). k \<in> fst ` set (props (h ! fs))"
    by (simp add: F_def)
  have loop: "for_in
           (\<lambda>h1 key.
              Some (bindE (get_prop h1 (Ref fs) key)
                (\<lambda>field. bindE (getLocaleString h1 field codes)
                   (\<lambda>v. put_prop h1 (Ref (length h)) key v))))
           (Ref fs) (map fst F) (h @ [empty_object\<lparr>props := []\<rparr>])
         = returns (h @ [empty_object\<lparr>props := P'\<rparr>])"
    unfolding P'_def by (rule for_in_fields_loop [OF fs keys resolve])
  have ks: "keys_in (h @ [empty_object]) (Ref fs) = map fst F"
    using fs by (simp add: F_def deref_append)
  have loop': "for_in
           (\<lambda>h1 key.
              Some (bindE (get_prop h1 (Ref fs) key)
                (\<lambda>field. bindE (getLocaleString h1 field codes)
                   (\<lambda>v. put_prop h1 (Ref (length h)) key v))))
           (Ref fs) (map fst F) (h @ [empty_object])
         = returns (h @ [empty_object\<lparr>props := P'\<rparr>])"
  proof -
    have "empty_object\<lparr>props := []\<rparr> = empty_object"
      by (simp add: empty_object_def)
    with loop show ?thesis by (simp only:)
  qed
  have fin: "put_prop (h @ [empty_object\<lparr>props := P'\<rparr>]) (Ref (length h)) (Name ''locale'')
               (first_code codes) = Inr h'"
    by (simp add: h'_def deref_last set_props_last read_only_empty_object)
  have run: "getFieldsForLocale h (Ref fs) codes = returns (h', Ref (length h))"
    unfolding getFieldsForLocale_def alloc_def Let_def prod.case ks loop'
    by (simp add: bindR_def returns_def fin del: put_prop.simps)
  have loc: "get_prop h' (Ref (length h)) (Name ''locale'') = Inr (first_code codes)"
    by (simp add: h'_def deref_last own_prop_ins_prop)
  have each: "\<exists>g. get_prop h (Ref fs) key = Inr (Ref g)
                \<and> get_prop h' (Ref (length h)) key
                    = Inr (first_truthy (map (\<lambda>c. own_prop (props (deref h g)) (Name c)) codes))"
    if key: "key \<in> set (keys_in h (Ref fs))" and nl: "key \<noteq> Name ''locale''" for key
  proof -
    from key fs have kF: "key \<in> fst ` set F" by (simp add: F_def deref_def)
    then obtain g where g: "own_prop F key = Ref g" "g < length h" using field by auto
    have "get_prop h (Ref fs) key = Inr (Ref g)"
      using g(1) fs by (simp add: F_def deref_def)
    moreover have "get_prop h' (Ref (length h)) key = Inr (r key)"
      using nl kF by (simp add: h'_def deref_last own_prop_ins_prop P'_def own_prop_foldl_ins)
    ultimately show ?thesis using g(1) by (simp add: r_def)
  qed
  from run loc each
  show "\<exists>h'. getFieldsForLocale h (Ref fs) codes = returns (h', Ref (length h))
             \<and> get_prop h' (Ref (length h)) (Name ''locale'') = Inr (first_code codes)
             \<and> (\<forall>key\<in>set (keys_in h (Ref fs)). key \<noteq> Name ''locale'' \<longrightarrow>
                   (\<exists>g. get_prop h (Ref fs) key = Inr (Ref g)
                      \<and> get_prop h' (Ref (length h)) key
                          = Inr (first_truthy
                                   (map (\<lambda>c. own_prop (props (deref h g)) (Name c)) codes))))"
    by blast
qed

text \<open>
  The hypotheses of the theorem hold of the field set \<open>falsy_fields\<close>: the title is
  resolved to the German value, the count to \<^verbatim>\<open>undefined\<close>.
\<close>

theorem resolution_first_truthy_witness:
  "\<exists>h'. getFieldsForLocale falsy_fields (Ref 0) [''en'', ''de''] = returns (h', Ref 3)
      \<and> get_prop h' (Ref 3) (Name ''title'') = Inr (Str ''B'')
      \<and> get_prop h' (Ref 3) (Name ''count'') = Inr Undefined
      \<and> get_prop h' (Ref 3) (Name ''locale'') = Inr (Str ''en'')"
proof -
  have len: "length falsy_fields = 3" by (simp add: falsy_fields_def)
  have fs: "0 < length falsy_fields" by (simp add: len)
  have maps: "\<forall>p\<in>set (props (falsy_fields ! 0)). \<exists>g. snd p = Ref g \<and> g < length falsy_fields"
    by (simp add: falsy_fields_def plain_def)
  from resolution_first_truthy [OF fs maps, of 0 "[''en'', ''de'']"]
  obtain h' where run: "getFieldsForLocale falsy_fields (Ref 0) [''en'', ''de''] = returns (h', Ref 3)"
    and loc: "get_prop h' (Ref 3) (Name ''locale'') = Inr (first_code [''en'', ''de''])"
    and each: "\<forall>key\<in>set (keys_in falsy_fields (Ref 0)). key \<noteq> Name ''locale'' \<longrightarrow>
                   (\<exists>g. get_prop falsy_fields (Ref 0) key = Inr (Ref g)
                      \<and> get_prop h' (Ref 3) key
                          = Inr (first_truthy
                                   (map (\<lambda>c. own_prop (props (deref falsy_fields g)) (Name c))
                                      [''en'', ''de''])))"
    unfolding len by blast
  have "get_prop h' (Ref 3) (Name ''title'') = Inr (Str ''B'')"
    using each [rule_format, of "Name ''title''"]
    by (simp add: falsy_fields_def plain_def deref_def own_prop_def first_truthy_def)
  moreover have "get_prop h' (Ref 3) (Name ''count'') = Inr Undefined"
    using each [rule_format, of "Name ''count''"]
    by (simp add: falsy_fields_def plain_def deref_def own_prop_def first_truthy_def)
  ultimately show ?thesis using run loc by auto
qed

text \<open>
  C4, as stated, fails: the first code of the group \<open>[en, de]\<close> present in the mapping
  \<^verbatim>\<open>{en: "", de: "B"}\<close> is \<open>en\<close>, with the empty string, and the code returns
  \<open>"B"\<close>; the code \<open>en\<close> is present in \<^verbatim>\<open>{en: 0}\<close>, and the code returns
  \<^verbatim>\<open>undefined\<close>.
\<close>

theorem resolution_skips_falsy:
  "getLocaleString falsy_fields (Ref 1) [''en'', ''de''] = Inr (Str ''B'')
   \<and> first_present falsy_fields 1 [''en'', ''de''] = Str ''''
   \<and> getLocaleString falsy_fields (Ref 2) [''en''] = Inr Undefined
   \<and> first_present falsy_fields 2 [''en''] = Num 0"
  by (simp add: getLocaleString_Ref first_present_def falsy_fields_def deref_def plain_def
      own_prop_def first_truthy_def has_key_def)

text \<open>
  C3 fails on the code. Flattening \<open>entry_page\<close> against the two groups \<open>[en]\<close> and
  \<open>[de]\<close> returns two records, but both are the one object at address 1, because
  \<^verbatim>\<open>let newEntry = entry\<close> copies the reference and \<^verbatim>\<open>merge\<close> writes into its
  destination. After the second round that object has the locale \<open>de\<close>, so the first
  record does not have the first code of the first group; its title is still the English
  one, since the second round finds \<^verbatim>\<open>entry.fields\<close> deleted.
\<close>

theorem flatten_two_groups_one_object:
  "map_option (map_sum id snd)
     (getLocalizedEntries 4 (Some [[''en''], [''de'']]) entry_page (Ref 0))
     = Some (Inr (Entries [Ref 1, Ref 1]))
   \<and> map_option (map_sum id (\<lambda>p. deref (fst p) 1))
     (getLocalizedEntries 4 (Some [[''en''], [''de'']]) entry_page (Ref 0))
     = Some (Inr (plain [(''id'', Str ''e1''), (''title'', Str ''A''),
                         (''contentType'', Str ''page''), (''locale'', Str ''de'')]))"
  by code_simp

text \<open>
  C7 fails on the code. With the configuration absent, flattening \<open>entry_page\<close> throws a
  TypeError: \<^verbatim>\<open>_cleanEntry\<close> runs \<^verbatim>\<open>this.locales.forEach\<close> before the test
  \<^verbatim>\<open>if (!this.locales)\<close> is reached. With the empty configuration, an array, that
  test is false, the loop has no round and the result is the empty array: no record.
\<close>

theorem flatten_without_groups:
  "getLocalizedEntries n None entry_page (Ref 0) = Some (Inl TypeError)
   \<and> map_option (map_sum id snd) (getLocalizedEntries n (Some []) entry_page (Ref 0))
       = Some (Inr (Entries []))"
  by (simp add: getLocalizedEntries_def cleanEntry_def alloc_def bindE_def bindR_def entry_page_def
      plain_def deref_def set_props_def own_prop_def entry_contentType_def strip_sys_def
      tag_fields_def empty_object_def nth_append returns_def)

subsection \<open>Cycles\<close>

text \<open>
  Flattening \<open>entry_self\<close>, one of whose fields references the entry itself under a locale
  code, returns one record: the fields of the nested copy are mappings of locale codes,
  not arrays, and \<^verbatim>\<open>_getFields\<close> descends one level only.
\<close>

lemma flatten_entry_self:
  "map_option (map_sum id snd) (getLocalizedEntries 5 (Some [[''en'']]) entry_self (Ref 0))
     = Some (Inr (Entries [Ref 1]))"
  by code_simp















end
